theory Spec2Isabelle
  imports Main
begin

section \<open>The platform: formatted output\<close>

text \<open>
  The checking macros of \<^verbatim>\<open>base.h\<close> report through \<^verbatim>\<open>fprintf(stderr, ...)\<close>.
  The function \<open>format\<close> is what \<^verbatim>\<open>fprintf\<close> prints for the format strings that
  stand in the header itself. Their conversions are \<^verbatim>\<open>%s\<close>, which takes a string
  argument, and \<^verbatim>\<open>%d\<close>, which takes an \<^verbatim>\<open>int\<close> argument; ordinary characters are
  copied, \<^verbatim>\<open>%%\<close> prints a percent sign, and arguments left over are ignored, as in
  C. The header supplies exactly the arguments its own conversions take, so a conversion
  that comes into such a string with pasted text (see \<^verbatim>\<open>require_not_null\<close>) finds no
  argument left: that is undefined behaviour in C for every conversion, and an error
  value here, as are an ill-typed argument and a \<^verbatim>\<open>%\<close> at the end of the string.
  The format and the arguments that a client passes to one of the \<^verbatim>\<open>_x\<close> macros are
  not run through this function.
\<close>

datatype printf_arg = Str string | Num int

datatype printf_error =
  Missing_argument | Argument_type_mismatch | Incomplete_conversion | Unmodelled_conversion char

definition newline :: char where
  "newline = CHR 0x0A"

definition digit_char :: "nat \<Rightarrow> char" where
  "digit_char d = ''0123456789'' ! d"

fun dec_nat :: "nat \<Rightarrow> string" where
  "dec_nat n = (if n < 10 then [digit_char n] else dec_nat (n div 10) @ [digit_char (n mod 10)])"

declare dec_nat.simps [simp del]

definition dec_int :: "int \<Rightarrow> string" where
  "dec_int i = (if i < 0 then CHR ''-'' # dec_nat (nat (- i)) else dec_nat (nat i))"

definition emit :: "string \<Rightarrow> printf_error + string \<Rightarrow> printf_error + string" where
  "emit s r = (case r of Inl e \<Rightarrow> Inl e | Inr t \<Rightarrow> Inr (s @ t))"

fun format :: "string \<Rightarrow> printf_arg list \<Rightarrow> printf_error + string" where
  "format [] args = Inr []"
| "format (c # fmt) args =
     (if c \<noteq> CHR ''%'' then emit [c] (format fmt args)
      else (case fmt of
              [] \<Rightarrow> Inl Incomplete_conversion
            | k # fmt' \<Rightarrow>
                if k = CHR ''%'' then emit ''%'' (format fmt' args)
                else if k = CHR ''s'' then
                  (case args of
                     [] \<Rightarrow> Inl Missing_argument
                   | Str s # args' \<Rightarrow> emit s (format fmt' args')
                   | Num _ # _ \<Rightarrow> Inl Argument_type_mismatch)
                else if k = CHR ''d'' then
                  (case args of
                     [] \<Rightarrow> Inl Missing_argument
                   | Num i # args' \<Rightarrow> emit (dec_int i) (format fmt' args')
                   | Str _ # _ \<Rightarrow> Inl Argument_type_mismatch)
                else if k = CHR ''n'' then
                  (case args of
                     [] \<Rightarrow> Inl Missing_argument
                   | _ # _ \<Rightarrow> Inl Argument_type_mismatch)
                else Inl (Unmodelled_conversion k)))"

section \<open>The process as the macros see it\<close>

text \<open>
  The only state the checking macros touch is the text written to the error stream.
  A macro either falls through to the next statement, or calls a function that ends the
  process, or runs into a format error of \<^verbatim>\<open>fprintf\<close>, or is rejected by the
  preprocessor.
\<close>

record process =
  stderr :: string

datatype outcome =
  Continues process
| Calls string int process
| Format_error printf_error
| Rejected

definition fprintf_stderr :: "string \<Rightarrow> printf_arg list \<Rightarrow> process \<Rightarrow> printf_error + process" where
  "fprintf_stderr fmt args st =
     (case format fmt args of
        Inl e \<Rightarrow> Inl e
      | Inr t \<Rightarrow> Inr (st\<lparr>stderr := stderr st @ t\<rparr>))"

text \<open>\<^verbatim>\<open>EXIT_FAILURE\<close> of \<^verbatim>\<open><stdlib.h>\<close>: the usual value.\<close>

definition EXIT_FAILURE :: int where
  "EXIT_FAILURE = 1"

definition EXIT_SUCCESS :: int where
  "EXIT_SUCCESS = 0"

text \<open>A pointer is an address; \<^verbatim>\<open>NULL\<close> is address zero.\<close>

type_synonym pointer = nat

definition NULL :: pointer where
  "NULL = 0"

section \<open>Object-like macros of the header\<close>

text \<open>
  \<^verbatim>\<open>#define free base_free\<close> stands on line 610 of \<^verbatim>\<open>base.h\<close> and
  \<^verbatim>\<open>#define exit base_exit\<close> on line 623. A macro table is the list of the
  object-like macros in force at some line; an identifier token is replaced by its
  definition when it has one. The bodies of function-like macros are scanned where the
  macro is used, with the table in force there.
\<close>

type_synonym macro_table = "(string \<times> string) list"

definition macros_after_line :: "nat \<Rightarrow> macro_table" where
  "macros_after_line n =
     (if 610 \<le> n then [(''free'', ''base_free'')] else []) @
     (if 623 \<le> n then [(''exit'', ''base_exit'')] else [])"

definition header_length :: nat where
  "header_length = 913"

definition client_scope :: macro_table where
  "client_scope = macros_after_line header_length"

definition expand :: "macro_table \<Rightarrow> string \<Rightarrow> string" where
  "expand ms t = (case map_of ms t of None \<Rightarrow> t | Some r \<Rightarrow> r)"

definition preprocess :: "macro_table \<Rightarrow> string list \<Rightarrow> string list" where
  "preprocess ms toks = map (expand ms) toks"

section \<open>Assertions, preconditions, postconditions\<close>

text \<open>
  Build configuration: each of \<^verbatim>\<open>NO_ASSERT\<close>, \<^verbatim>\<open>NO_REQUIRE\<close>, \<^verbatim>\<open>NO_ENSURE\<close>
  is defined or not. The call site gives \<^verbatim>\<open>__FILE__\<close>, \<^verbatim>\<open>__LINE__\<close> and
  \<^verbatim>\<open>__func__\<close>.
\<close>

record build =
  NO_ASSERT :: bool
  NO_REQUIRE :: bool
  NO_ENSURE :: bool

record site =
  file_name :: string
  line_no :: int
  func_name :: string

definition checks_enabled :: build where
  "checks_enabled = \<lparr>NO_ASSERT = False, NO_REQUIRE = False, NO_ENSURE = False\<rparr>"

text \<open>
  The common shape of the enabled macros: a list of \<^verbatim>\<open>fprintf\<close> calls in order,
  then \<^verbatim>\<open>exit(EXIT_FAILURE)\<close>, where \<^verbatim>\<open>exit\<close> is an identifier token of the
  macro body and is scanned with the table of the place of use. A call either has a
  format string of the header with its arguments, or it is
  \<^verbatim>\<open>fprintf(stderr, __VA_ARGS__)\<close> with the format and the arguments of the client:
  what that call prints is the work of the C library on the client's arguments and is
  given as the text printed.
\<close>

datatype fprintf_call = Header string "printf_arg list" | Variable_arguments string

fun fprintf_all :: "fprintf_call list \<Rightarrow> process \<Rightarrow> printf_error + process" where
  "fprintf_all [] st = Inr st"
| "fprintf_all (Header fmt args # calls) st =
     (case fprintf_stderr fmt args st of
        Inl e \<Rightarrow> Inl e
      | Inr st' \<Rightarrow> fprintf_all calls st')"
| "fprintf_all (Variable_arguments printed # calls) st =
     fprintf_all calls (st\<lparr>stderr := stderr st @ printed\<rparr>)"

definition report_and_exit :: "macro_table \<Rightarrow> fprintf_call list \<Rightarrow> process \<Rightarrow> outcome" where
  "report_and_exit ms calls st =
     (case fprintf_all calls st of
        Inl e \<Rightarrow> Format_error e
      | Inr st' \<Rightarrow> Calls (expand ms ''exit'') EXIT_FAILURE st')"

text \<open>
  \<^verbatim>\<open>assert(description, condition)\<close>. The arguments of the model are the value of
  the condition and its source text (\<^verbatim>\<open>#condition\<close>).
\<close>

definition assert :: "macro_table \<Rightarrow> build \<Rightarrow> site \<Rightarrow> string \<Rightarrow> bool \<Rightarrow> string \<Rightarrow> process \<Rightarrow> outcome" where
  \<open>assert ms b loc description condition condition_text st =
     (if NO_ASSERT b then Continues st
      else if \<not> condition then
        report_and_exit ms
          [Header (''%s, line %d: assertion "%s" (%s) violated'' @ [newline])
             [Str (file_name loc), Num (line_no loc), Str description, Str condition_text]] st
      else Continues st)\<close>

text \<open>
  \<^verbatim>\<open>assert_x(description, condition, ...)\<close>: the variable arguments are a format and
  its arguments, and \<open>detail\<close> is the text that \<^verbatim>\<open>fprintf(stderr, __VA_ARGS__)\<close>
  prints for them. With \<^verbatim>\<open>NO_ASSERT\<close> the macro is defined with two parameters
  only, so a use that passes a detail format does not preprocess.
\<close>

definition assert_x :: "macro_table \<Rightarrow> build \<Rightarrow> site \<Rightarrow> string \<Rightarrow> bool \<Rightarrow> string \<Rightarrow> process \<Rightarrow> outcome" where
  \<open>assert_x ms b loc description condition detail st =
     (if NO_ASSERT b then Rejected
      else if \<not> condition then
        report_and_exit ms
          [Header ''%s, line %d: assertion "%s" violated: ''
             [Str (file_name loc), Num (line_no loc), Str description],
           Variable_arguments detail,
           Header [newline] []] st
      else Continues st)\<close>

definition require :: "macro_table \<Rightarrow> build \<Rightarrow> site \<Rightarrow> string \<Rightarrow> bool \<Rightarrow> string \<Rightarrow> process \<Rightarrow> outcome" where
  \<open>require ms b loc description condition condition_text st =
     (if NO_REQUIRE b then Continues st
      else if \<not> condition then
        report_and_exit ms
          [Header (''%s, line %d: %s's precondition "%s" (%s) violated'' @ [newline])
             [Str (file_name loc), Num (line_no loc), Str (func_name loc), Str description,
              Str condition_text]] st
      else Continues st)\<close>

definition require_x :: "macro_table \<Rightarrow> build \<Rightarrow> site \<Rightarrow> string \<Rightarrow> bool \<Rightarrow> string \<Rightarrow> process \<Rightarrow> outcome" where
  \<open>require_x ms b loc description condition detail st =
     (if NO_REQUIRE b then Rejected
      else if \<not> condition then
        report_and_exit ms
          [Header ''%s, line %d: %s's precondition "%s" violated: ''
             [Str (file_name loc), Num (line_no loc), Str (func_name loc), Str description],
           Variable_arguments detail,
           Header [newline] []] st
      else Continues st)\<close>

text \<open>
  \<^verbatim>\<open>require_not_null(argument)\<close>. The macro tests \<^verbatim>\<open>argument == NULL\<close> with the
  text of the argument put in without parentheses, so what is compared with
  \<^verbatim>\<open>NULL\<close> depends on the form of the argument. An operand of \<^verbatim>\<open>==\<close> (a name, a
  call, an element, a sum and the like) is compared as a whole. Of a conditional
  \<^verbatim>\<open>c ? a : b\<close> only the last branch is compared: the test reads
  \<^verbatim>\<open>c ? a : (b == NULL)\<close>, which is \<^verbatim>\<open>a\<close> taken as a truth value when
  \<^verbatim>\<open>c\<close> holds. Arguments with assignments are not modelled, as no expression here
  has a side effect.
\<close>

datatype argument = Operand pointer | Conditional bool pointer pointer

fun argument_value :: "argument \<Rightarrow> pointer" where
  "argument_value (Operand p) = p"
| "argument_value (Conditional c a b) = (if c then a else b)"

fun equals_NULL :: "argument \<Rightarrow> bool" where
  "equals_NULL (Operand p) = (p = NULL)"
| "equals_NULL (Conditional c a b) = (if c then a \<noteq> NULL else b = NULL)"

text \<open>
  The source text of the argument (\<^verbatim>\<open>#argument\<close>) is pasted between two pieces of
  the format string itself.
\<close>

definition require_not_null :: "macro_table \<Rightarrow> build \<Rightarrow> site \<Rightarrow> argument \<Rightarrow> string \<Rightarrow> process \<Rightarrow> outcome" where
  \<open>require_not_null ms b loc argument argument_text st =
     (if NO_REQUIRE b then Continues st
      else if equals_NULL argument then
        report_and_exit ms
          [Header (''%s, line %d: %s's precondition "not null" ('' @ argument_text @ '') violated''
              @ [newline])
             [Str (file_name loc), Num (line_no loc), Str (func_name loc)]] st
      else Continues st)\<close>

definition ensure :: "macro_table \<Rightarrow> build \<Rightarrow> site \<Rightarrow> string \<Rightarrow> bool \<Rightarrow> string \<Rightarrow> process \<Rightarrow> outcome" where
  \<open>ensure ms b loc description condition condition_text st =
     (if NO_ENSURE b then Continues st
      else if \<not> condition then
        report_and_exit ms
          [Header (''%s, line %d: %s's postcondition "%s" (%s) violated'' @ [newline])
             [Str (file_name loc), Num (line_no loc), Str (func_name loc), Str description,
              Str condition_text]] st
      else Continues st)\<close>

definition ensure_x :: "macro_table \<Rightarrow> build \<Rightarrow> site \<Rightarrow> string \<Rightarrow> bool \<Rightarrow> string \<Rightarrow> process \<Rightarrow> outcome" where
  \<open>ensure_x ms b loc description condition detail st =
     (if NO_ENSURE b then Rejected
      else if \<not> condition then
        report_and_exit ms
          [Header ''%s, line %d: %s's postcondition "%s" violated: ''
             [Str (file_name loc), Num (line_no loc), Str (func_name loc), Str description],
           Variable_arguments detail,
           Header [newline] []] st
      else Continues st)\<close>

subsection \<open>The three kinds of check, and the text of a diagnostic\<close>

text \<open>
  The three kinds differ in the macro that is used, in the switch that compiles it out and
  in the words that follow the line number.
\<close>

datatype check = Assertion | Precondition | Postcondition

definition check :: "check \<Rightarrow> macro_table \<Rightarrow> build \<Rightarrow> site \<Rightarrow> string \<Rightarrow> bool \<Rightarrow> string \<Rightarrow> process \<Rightarrow> outcome" where
  "check k = (case k of Assertion \<Rightarrow> assert | Precondition \<Rightarrow> require | Postcondition \<Rightarrow> ensure)"

definition check_x :: "check \<Rightarrow> macro_table \<Rightarrow> build \<Rightarrow> site \<Rightarrow> string \<Rightarrow> bool \<Rightarrow> string \<Rightarrow> process \<Rightarrow> outcome" where
  "check_x k = (case k of Assertion \<Rightarrow> assert_x | Precondition \<Rightarrow> require_x | Postcondition \<Rightarrow> ensure_x)"

definition compiled_out :: "check \<Rightarrow> build \<Rightarrow> bool" where
  "compiled_out k b =
     (case k of Assertion \<Rightarrow> NO_ASSERT b | Precondition \<Rightarrow> NO_REQUIRE b | Postcondition \<Rightarrow> NO_ENSURE b)"

definition subject :: "check \<Rightarrow> site \<Rightarrow> string" where
  "subject k loc =
     (case k of
        Assertion \<Rightarrow> ''assertion''
      | Precondition \<Rightarrow> func_name loc @ '''s precondition''
      | Postcondition \<Rightarrow> func_name loc @ '''s postcondition'')"

text \<open>
  The text of a diagnostic as the documentation of the macros shows it: the location, the
  subject, the description in double quotes, and then either the condition in parentheses
  or the formatted detail.
\<close>

definition diagnostic_head :: "site \<Rightarrow> string \<Rightarrow> string \<Rightarrow> string" where
  \<open>diagnostic_head loc subj description =
     file_name loc @ '', line '' @ dec_int (line_no loc) @ '': '' @ subj @ '' "'' @ description @ ''"''\<close>

definition plain_diagnostic :: "site \<Rightarrow> string \<Rightarrow> string \<Rightarrow> string \<Rightarrow> string" where
  "plain_diagnostic loc subj description condition_text =
     diagnostic_head loc subj description @ '' ('' @ condition_text @ '') violated''"

definition formatted_diagnostic :: "site \<Rightarrow> string \<Rightarrow> string \<Rightarrow> string \<Rightarrow> string" where
  "formatted_diagnostic loc subj description detail =
     diagnostic_head loc subj description @ '' violated: '' @ detail"

text \<open>The number of lines a text ends, and the text a macro added to the error stream.\<close>

definition line_count :: "string \<Rightarrow> nat" where
  "line_count s = length (filter (\<lambda>c. c = newline) s)"

definition written :: "process \<Rightarrow> outcome \<Rightarrow> string" where
  "written st out =
     (case out of
        Continues st' \<Rightarrow> drop (length (stderr st)) (stderr st')
      | Calls f status st' \<Rightarrow> drop (length (stderr st)) (stderr st')
      | Format_error e \<Rightarrow> []
      | Rejected \<Rightarrow> [])"

text \<open>
  Where a call that ends the process goes: \<^verbatim>\<open>base_exit\<close> is declared on line 617 of
  the header and its body is not part of it, so the function is a parameter here, as is
  the \<^verbatim>\<open>exit\<close> of the C library.
\<close>

definition finish :: "(int \<Rightarrow> process \<Rightarrow> 'r) \<Rightarrow> (int \<Rightarrow> process \<Rightarrow> 'r) \<Rightarrow> outcome \<Rightarrow> 'r option" where
  "finish base_exit exit out =
     (case out of
        Calls f status st \<Rightarrow>
          if f = ''base_exit'' then Some (base_exit status st)
          else if f = ''exit'' then Some (exit status st)
          else None
      | Continues st \<Rightarrow> None
      | Format_error e \<Rightarrow> None
      | Rejected \<Rightarrow> None)"

definition example_site :: site where
  "example_site = \<lparr>file_name = ''myfile.c'', line_no = 18, func_name = ''myfunction''\<rparr>"

section \<open>Quantifiers over an iteration\<close>

text \<open>
  \<^verbatim>\<open>forall(init, has_more_steps, do_step, condition)\<close> is a statement expression:
  it declares \<^verbatim>\<open>bool result = true\<close>, runs
  \<^verbatim>\<open>for (init; has_more_steps; do_step) { if (!(condition)) { result = false; break; } }\<close>
  and has the value of \<^verbatim>\<open>result\<close>. The four arguments are put into the scope of
  that variable, so inside them the identifier \<^verbatim>\<open>result\<close> is the variable of the macro
  and not a variable of the client with that name.

  The state \<open>'s\<close> holds the variables that \<^verbatim>\<open>init\<close> declares. Each argument is a
  function of that state and of the value that the identifier \<^verbatim>\<open>result\<close> has where
  it is evaluated (an \<^verbatim>\<open>int\<close>: 0 and 1 for the \<^verbatim>\<open>bool\<close> of \<^verbatim>\<open>forall\<close> and
  \<^verbatim>\<open>exists\<close>). \<^verbatim>\<open>has_more_steps\<close> and \<^verbatim>\<open>condition\<close> read; \<^verbatim>\<open>do_step\<close> returns
  the new state and the value it leaves in \<^verbatim>\<open>result\<close>; \<^verbatim>\<open>init\<close> gets the value the
  macro has given its variable. The loop need not end, so the result of a macro is an
  option and \<open>None\<close> stands for a loop that runs forever.

  When \<^verbatim>\<open>init\<close> itself declares a variable called \<^verbatim>\<open>result\<close>, that loop variable
  hides the variable of the macro inside the loop: the arguments see the loop variable,
  and so do the statements \<^verbatim>\<open>result = false\<close>, \<^verbatim>\<open>result = true\<close> and
  \<^verbatim>\<open>result++\<close> of the loop bodies, while the value of the macro is still that of its
  own variable. The loop variable is then given by how it is read from and written to the
  state.
\<close>

datatype 's result_name = Macro_variable | Loop_variable "'s \<Rightarrow> int" "int \<Rightarrow> 's \<Rightarrow> 's"

definition seen :: "'s result_name \<Rightarrow> 's \<Rightarrow> int \<Rightarrow> int" where
  "seen nm s r = (case nm of Macro_variable \<Rightarrow> r | Loop_variable rd wr \<Rightarrow> rd s)"

text \<open>
  \<^verbatim>\<open>do_step\<close> where the variable of the macro holds \<open>r\<close>: the new state and the new
  value of the macro's variable. When the name is hidden, what \<^verbatim>\<open>do_step\<close> leaves in
  \<^verbatim>\<open>result\<close> goes to the loop variable and the variable of the macro stays as it is.
\<close>

definition next_scope :: "'s result_name \<Rightarrow> ('s \<Rightarrow> int \<Rightarrow> 's \<times> int) \<Rightarrow> 's \<Rightarrow> int \<Rightarrow> 's \<times> int" where
  "next_scope nm do_step s r =
     (case nm of
        Macro_variable \<Rightarrow> do_step s r
      | Loop_variable rd wr \<Rightarrow> (wr (snd (do_step s (rd s))) (fst (do_step s (rd s))), r))"

text \<open>
  The value of the macro after \<^verbatim>\<open>result = v; break;\<close>: the assignment reaches the
  macro's variable unless a loop variable hides it.
\<close>

definition assigned :: "'s result_name \<Rightarrow> bool \<Rightarrow> bool \<Rightarrow> bool" where
  "assigned nm v result = (case nm of Macro_variable \<Rightarrow> v | Loop_variable rd wr \<Rightarrow> result)"

partial_function (option) forall_loop ::
  "'s result_name \<Rightarrow> ('s \<Rightarrow> int \<Rightarrow> bool) \<Rightarrow> ('s \<Rightarrow> int \<Rightarrow> 's \<times> int) \<Rightarrow> ('s \<Rightarrow> int \<Rightarrow> bool)
     \<Rightarrow> 's \<Rightarrow> bool \<Rightarrow> bool option" where
  "forall_loop nm has_more_steps do_step condition s result =
     (if has_more_steps s (seen nm s (of_bool result)) then
        (if \<not> condition s (seen nm s (of_bool result)) then Some (assigned nm False result)
         else forall_loop nm has_more_steps do_step condition
                (fst (next_scope nm do_step s (of_bool result)))
                (snd (next_scope nm do_step s (of_bool result)) \<noteq> 0))
      else Some result)"

definition forall ::
  "'s result_name \<Rightarrow> (int \<Rightarrow> 's) \<Rightarrow> ('s \<Rightarrow> int \<Rightarrow> bool) \<Rightarrow> ('s \<Rightarrow> int \<Rightarrow> 's \<times> int) \<Rightarrow> ('s \<Rightarrow> int \<Rightarrow> bool)
     \<Rightarrow> bool option" where
  "forall nm init has_more_steps do_step condition =
     forall_loop nm has_more_steps do_step condition (init 1) True"

partial_function (option) exists_loop ::
  "'s result_name \<Rightarrow> ('s \<Rightarrow> int \<Rightarrow> bool) \<Rightarrow> ('s \<Rightarrow> int \<Rightarrow> 's \<times> int) \<Rightarrow> ('s \<Rightarrow> int \<Rightarrow> bool)
     \<Rightarrow> 's \<Rightarrow> bool \<Rightarrow> bool option" where
  "exists_loop nm has_more_steps do_step condition s result =
     (if has_more_steps s (seen nm s (of_bool result)) then
        (if condition s (seen nm s (of_bool result)) then Some (assigned nm True result)
         else exists_loop nm has_more_steps do_step condition
                (fst (next_scope nm do_step s (of_bool result)))
                (snd (next_scope nm do_step s (of_bool result)) \<noteq> 0))
      else Some result)"

definition exists ::
  "'s result_name \<Rightarrow> (int \<Rightarrow> 's) \<Rightarrow> ('s \<Rightarrow> int \<Rightarrow> bool) \<Rightarrow> ('s \<Rightarrow> int \<Rightarrow> 's \<times> int) \<Rightarrow> ('s \<Rightarrow> int \<Rightarrow> bool)
     \<Rightarrow> bool option" where
  "exists nm init has_more_steps do_step condition =
     exists_loop nm has_more_steps do_step condition (init 0) False"

text \<open>
  \<^verbatim>\<open>countif\<close> declares \<^verbatim>\<open>int result = 0\<close> and its loop body is
  \<^verbatim>\<open>if (condition) { result++; }\<close>. An \<^verbatim>\<open>int\<close> has 32 bits here; incrementing
  \<^verbatim>\<open>INT_MAX\<close> is undefined in C and is a result of its own.
\<close>

definition INT_MAX :: int where
  "INT_MAX = 2147483647"

datatype 'a evaluation = Value 'a | Signed_overflow

text \<open>\<^verbatim>\<open>result++\<close> in the loop body: on the macro's variable, or on the loop variable.\<close>

definition increment :: "'s result_name \<Rightarrow> 's \<Rightarrow> int \<Rightarrow> ('s \<times> int) evaluation" where
  "increment nm s result =
     (case nm of
        Macro_variable \<Rightarrow>
          if result = INT_MAX then Signed_overflow else Value (s, result + 1)
      | Loop_variable rd wr \<Rightarrow>
          if rd s = INT_MAX then Signed_overflow else Value (wr (rd s + 1) s, result))"

partial_function (option) countif_loop ::
  "'s result_name \<Rightarrow> ('s \<Rightarrow> int \<Rightarrow> bool) \<Rightarrow> ('s \<Rightarrow> int \<Rightarrow> 's \<times> int) \<Rightarrow> ('s \<Rightarrow> int \<Rightarrow> bool)
     \<Rightarrow> 's \<Rightarrow> int \<Rightarrow> int evaluation option" where
  "countif_loop nm has_more_steps do_step condition s result =
     (if has_more_steps s (seen nm s result) then
        (if condition s (seen nm s result) then
           (case increment nm s result of
              Signed_overflow \<Rightarrow> Some Signed_overflow
            | Value (s1, r1) \<Rightarrow>
                countif_loop nm has_more_steps do_step condition
                  (fst (next_scope nm do_step s1 r1)) (snd (next_scope nm do_step s1 r1)))
         else countif_loop nm has_more_steps do_step condition
                (fst (next_scope nm do_step s result)) (snd (next_scope nm do_step s result)))
      else Some (Value result))"

definition countif ::
  "'s result_name \<Rightarrow> (int \<Rightarrow> 's) \<Rightarrow> ('s \<Rightarrow> int \<Rightarrow> bool) \<Rightarrow> ('s \<Rightarrow> int \<Rightarrow> 's \<times> int) \<Rightarrow> ('s \<Rightarrow> int \<Rightarrow> bool)
     \<Rightarrow> int evaluation option" where
  "countif nm init has_more_steps do_step condition =
     countif_loop nm has_more_steps do_step condition (init 0) 0"

text \<open>
  Arguments that do not use the identifier \<^verbatim>\<open>result\<close>: the value of an expression
  depends on the state only, and \<^verbatim>\<open>do_step\<close> leaves the variable as it is.
\<close>

definition ignoring :: "('s \<Rightarrow> 'a) \<Rightarrow> 's \<Rightarrow> int \<Rightarrow> 'a" where
  "ignoring f s r = f s"

definition keeping :: "('s \<Rightarrow> 's) \<Rightarrow> 's \<Rightarrow> int \<Rightarrow> 's \<times> int" where
  "keeping f s r = (f s, r)"

text \<open>
  The iteration that an initial state, a continuation test and a step describe on their
  own: the states of its first \<open>n\<close> steps, and the statement that it has exactly
  \<open>n\<close> steps.
\<close>

primrec steps :: "nat \<Rightarrow> ('s \<Rightarrow> 's) \<Rightarrow> 's \<Rightarrow> 's list" where
  "steps 0 do_step s = []"
| "steps (Suc n) do_step s = s # steps n do_step (do_step s)"

definition iterates :: "nat \<Rightarrow> 's \<Rightarrow> ('s \<Rightarrow> bool) \<Rightarrow> ('s \<Rightarrow> 's) \<Rightarrow> bool" where
  "iterates n init has_more_steps do_step =
     (list_all has_more_steps (steps n do_step init) \<and> \<not> has_more_steps ((do_step ^^ n) init))"

section \<open>The tracked allocator\<close>

text \<open>
  \<^verbatim>\<open>base.h\<close> declares \<^verbatim>\<open>base_malloc\<close>, \<^verbatim>\<open>base_calloc\<close>,
  \<^verbatim>\<open>base_realloc\<close> and \<^verbatim>\<open>base_free\<close> and defines the macros that pass the
  call site to them; the bodies of the four functions are not in the header.
\<close>

text \<open>
  Modelled from the spec: the Live-Block Record and the Allocation Ledger (section 3 of
  the specification; the ledger is kept by code outside of \<^verbatim>\<open>base.h\<close>). A record
  holds the byte size and the originating file, function and line; the ledger maps the
  address of a block to its record.
\<close>

record block =
  byte_size :: nat
  origin :: site

type_synonym ledger = "pointer \<rightharpoonup> block"

datatype failure = Allocation_failure

text \<open>
  Modelled from the spec: the body of \<^verbatim>\<open>base_malloc\<close> (operation allocate of section
  4.1). The argument \<open>platform_block\<close> is what the platform allocator returns for the
  request, \<^verbatim>\<open>NULL\<close> when it cannot satisfy it: then the process fails; otherwise a
  record keyed by the returned address is inserted.
\<close>

definition base_malloc :: "string \<Rightarrow> string \<Rightarrow> int \<Rightarrow> nat \<Rightarrow> pointer \<Rightarrow> ledger \<Rightarrow> failure + pointer \<times> ledger" where
  "base_malloc file function line nbytes platform_block L =
     (if platform_block = NULL then Inl Allocation_failure
      else Inr (platform_block,
        L(platform_block \<mapsto>
          \<lparr>byte_size = nbytes,
           origin = \<lparr>file_name = file, line_no = line, func_name = function\<rparr>\<rparr>)))"

text \<open>
  Modelled from the spec: the body of \<^verbatim>\<open>base_calloc\<close> (operation allocate_zeroed):
  a block of \<open>num * nbytes\<close> bytes, with the failure policy of allocate.
\<close>

definition base_calloc :: "string \<Rightarrow> string \<Rightarrow> int \<Rightarrow> nat \<Rightarrow> nat \<Rightarrow> pointer \<Rightarrow> ledger \<Rightarrow> failure + pointer \<times> ledger" where
  "base_calloc file function line num nbytes platform_block L =
     (if platform_block = NULL then Inl Allocation_failure
      else Inr (platform_block,
        L(platform_block \<mapsto>
          \<lparr>byte_size = num * nbytes,
           origin = \<lparr>file_name = file, line_no = line, func_name = function\<rparr>\<rparr>)))"

text \<open>
  Modelled from the spec: the body of \<^verbatim>\<open>base_realloc\<close> (operation reallocate): on
  success the entry of the old address is removed and one for the new address, which may
  be the same, is inserted with the new size and call site; on failure the ledger is not
  touched.
\<close>

definition base_realloc :: "string \<Rightarrow> string \<Rightarrow> int \<Rightarrow> pointer \<Rightarrow> nat \<Rightarrow> pointer \<Rightarrow> ledger \<Rightarrow> failure + pointer \<times> ledger" where
  "base_realloc file function line ptr nbytes platform_block L =
     (if platform_block = NULL then Inl Allocation_failure
      else Inr (platform_block,
        (L(ptr := None))(platform_block \<mapsto>
          \<lparr>byte_size = nbytes,
           origin = \<lparr>file_name = file, line_no = line, func_name = function\<rparr>\<rparr>)))"

text \<open>
  Modelled from the spec: the body of \<^verbatim>\<open>base_free\<close> (operation release): a null
  pointer is a no-op, any other pointer loses its record.
\<close>

definition base_free :: "pointer \<Rightarrow> ledger \<Rightarrow> ledger" where
  "base_free p L = (if p = NULL then L else L(p := None))"

text \<open>
  The macros of the header (lines 551, 573 and 597): they pass \<^verbatim>\<open>__FILE__\<close>,
  \<^verbatim>\<open>__func__\<close> and \<^verbatim>\<open>__LINE__\<close> of the place of use.
\<close>

definition xmalloc :: "site \<Rightarrow> nat \<Rightarrow> pointer \<Rightarrow> ledger \<Rightarrow> failure + pointer \<times> ledger" where
  "xmalloc loc nbytes = base_malloc (file_name loc) (func_name loc) (line_no loc) nbytes"

definition xrealloc :: "site \<Rightarrow> pointer \<Rightarrow> nat \<Rightarrow> pointer \<Rightarrow> ledger \<Rightarrow> failure + pointer \<times> ledger" where
  "xrealloc loc ptr nbytes = base_realloc (file_name loc) (func_name loc) (line_no loc) ptr nbytes"

definition xcalloc :: "site \<Rightarrow> nat \<Rightarrow> nat \<Rightarrow> pointer \<Rightarrow> ledger \<Rightarrow> failure + pointer \<times> ledger" where
  "xcalloc loc num nbytes = base_calloc (file_name loc) (func_name loc) (line_no loc) num nbytes"

text \<open>
  A client program, as far as the ledger is concerned, is a list of requests, each with
  the block the platform hands out for it. The first failure ends the run.
\<close>

datatype request =
  Malloc site nat pointer
| Calloc site nat nat pointer
| Realloc site pointer nat pointer
| Free pointer

fun perform :: "request \<Rightarrow> ledger \<Rightarrow> failure + ledger" where
  "perform (Malloc loc nbytes pb) L = map_sum id snd (xmalloc loc nbytes pb L)"
| "perform (Calloc loc num nbytes pb) L = map_sum id snd (xcalloc loc num nbytes pb L)"
| "perform (Realloc loc ptr nbytes pb) L = map_sum id snd (xrealloc loc ptr nbytes pb L)"
| "perform (Free p) L = Inr (base_free p L)"

fun run :: "request list \<Rightarrow> ledger \<Rightarrow> failure + ledger" where
  "run [] L = Inr L"
| "run (r # rs) L = (case perform r L of Inl e \<Rightarrow> Inl e | Inr L' \<Rightarrow> run rs L')"

text \<open>
  What the invariant of the ledger speaks about: a request hands out the block at \<open>p\<close>,
  a request releases the block at \<open>p\<close>, and the block at \<open>p\<close> has been handed out by
  some request of a run and released by none after it.
\<close>

fun creates :: "request \<Rightarrow> pointer \<Rightarrow> bool" where
  "creates (Malloc loc nbytes pb) p = (pb = p)"
| "creates (Calloc loc num nbytes pb) p = (pb = p)"
| "creates (Realloc loc ptr nbytes pb) p = (pb = p)"
| "creates (Free q) p = False"

fun releases :: "request \<Rightarrow> pointer \<Rightarrow> bool" where
  "releases (Malloc loc nbytes pb) p = False"
| "releases (Calloc loc num nbytes pb) p = False"
| "releases (Realloc loc ptr nbytes pb) p = (ptr = p)"
| "releases (Free q) p = (q = p \<and> q \<noteq> NULL)"

fun live :: "pointer \<Rightarrow> request list \<Rightarrow> bool" where
  "live p [] = False"
| "live p (r # rs) = ((creates r p \<and> list_all (\<lambda>r'. \<not> releases r' p) rs) \<or> live p rs)"

section \<open>Bounds-checked access to a container\<close>

text \<open>
  Modelled from the spec: \<^verbatim>\<open>get\<close> and \<^verbatim>\<open>set\<close> of the container family (section
  4.3; the array and list headers that \<^verbatim>\<open>base.h\<close> includes are not among the
  sources). A container of length \<open>L\<close> is the list of its elements; an access checks
  \<open>0 \<le> index < L\<close> with the precondition macro of \<^verbatim>\<open>base.h\<close> and then reads or
  replaces the element. With preconditions compiled out nothing stops an access
  outside the container.
\<close>

datatype 'a access = Returned 'a process | Stopped outcome | Out_of_range_access

definition in_range :: "'a list \<Rightarrow> int \<Rightarrow> bool" where
  "in_range container index = (0 \<le> index \<and> index < int (length container))"

definition get :: "macro_table \<Rightarrow> build \<Rightarrow> site \<Rightarrow> string \<Rightarrow> string \<Rightarrow> 'a list \<Rightarrow> int \<Rightarrow> process \<Rightarrow> 'a access" where
  "get ms b loc description condition_text container index st =
     (case require ms b loc description (in_range container index) condition_text st of
        Continues st' \<Rightarrow>
          if in_range container index then Returned (container ! nat index) st'
          else Out_of_range_access
      | Calls f status st' \<Rightarrow> Stopped (Calls f status st')
      | Format_error e \<Rightarrow> Stopped (Format_error e)
      | Rejected \<Rightarrow> Stopped Rejected)"

definition set_elem :: "macro_table \<Rightarrow> build \<Rightarrow> site \<Rightarrow> string \<Rightarrow> string \<Rightarrow> 'a list \<Rightarrow> int \<Rightarrow> 'a \<Rightarrow> process \<Rightarrow> 'a list access" where
  "set_elem ms b loc description condition_text container index v st =
     (case require ms b loc description (in_range container index) condition_text st of
        Continues st' \<Rightarrow>
          if in_range container index then Returned (container[nat index := v]) st'
          else Out_of_range_access
      | Calls f status st' \<Rightarrow> Stopped (Calls f status st')
      | Format_error e \<Rightarrow> Stopped (Format_error e)
      | Rejected \<Rightarrow> Stopped Rejected)"

section \<open>Properties of the checks\<close>

subsection \<open>What the format strings of the macros print\<close>

lemma emit_Inr [simp]: "emit s (Inr t) = Inr (s @ t)"
  by (simp add: emit_def)

lemma emit_Inl [simp]: "emit s (Inl e) = Inl e"
  by (simp add: emit_def)

lemma format_plain:
  "CHR ''%'' \<notin> set s \<Longrightarrow> format (s @ fmt) args = emit s (format fmt args)"
  by (induction s) (auto simp: emit_def split: sum.splits)

lemma format_newline: "format [newline] args = Inr [newline]"
  by (simp add: newline_def)

lemma format_assert:
  \<open>format (''%s, line %d: assertion "%s" (%s) violated'' @ [newline])
      [Str (file_name loc), Num (line_no loc), Str d, Str ct]
    = Inr (plain_diagnostic loc ''assertion'' d ct @ [newline])\<close>
  by (simp add: newline_def plain_diagnostic_def diagnostic_head_def)

lemma format_require:
  \<open>format (''%s, line %d: %s's precondition "%s" (%s) violated'' @ [newline])
      [Str (file_name loc), Num (line_no loc), Str (func_name loc), Str d, Str ct]
    = Inr (plain_diagnostic loc (func_name loc @ '''s precondition'') d ct @ [newline])\<close>
  by (simp add: newline_def plain_diagnostic_def diagnostic_head_def)

lemma format_ensure:
  \<open>format (''%s, line %d: %s's postcondition "%s" (%s) violated'' @ [newline])
      [Str (file_name loc), Num (line_no loc), Str (func_name loc), Str d, Str ct]
    = Inr (plain_diagnostic loc (func_name loc @ '''s postcondition'') d ct @ [newline])\<close>
  by (simp add: newline_def plain_diagnostic_def diagnostic_head_def)

lemma format_assert_x:
  \<open>format ''%s, line %d: assertion "%s" violated: ''
      [Str (file_name loc), Num (line_no loc), Str d]
    = Inr (diagnostic_head loc ''assertion'' d @ '' violated: '')\<close>
  by (simp add: diagnostic_head_def)

lemma format_require_x:
  \<open>format ''%s, line %d: %s's precondition "%s" violated: ''
      [Str (file_name loc), Num (line_no loc), Str (func_name loc), Str d]
    = Inr (diagnostic_head loc (func_name loc @ '''s precondition'') d @ '' violated: '')\<close>
  by (simp add: diagnostic_head_def)

lemma format_ensure_x:
  \<open>format ''%s, line %d: %s's postcondition "%s" violated: ''
      [Str (file_name loc), Num (line_no loc), Str (func_name loc), Str d]
    = Inr (diagnostic_head loc (func_name loc @ '''s postcondition'') d @ '' violated: '')\<close>
  by (simp add: diagnostic_head_def)

lemma report_one:
  "format fmt args = Inr t \<Longrightarrow>
   report_and_exit ms [Header fmt args] st
     = Calls (expand ms ''exit'') EXIT_FAILURE (st\<lparr>stderr := stderr st @ t\<rparr>)"
  by (simp add: report_and_exit_def fprintf_stderr_def)

lemma report_three:
  "format f1 a1 = Inr t1 \<Longrightarrow> format f3 a3 = Inr t3 \<Longrightarrow>
   report_and_exit ms [Header f1 a1, Variable_arguments detail, Header f3 a3] st
     = Calls (expand ms ''exit'') EXIT_FAILURE (st\<lparr>stderr := stderr st @ t1 @ detail @ t3\<rparr>)"
  by (simp add: report_and_exit_def fprintf_stderr_def)

lemma assert_fails:
  "\<not> NO_ASSERT b \<Longrightarrow> \<not> condition \<Longrightarrow>
   assert ms b loc d condition ct st
     = Calls (expand ms ''exit'') EXIT_FAILURE
         (st\<lparr>stderr := stderr st @ plain_diagnostic loc ''assertion'' d ct @ [newline]\<rparr>)"
  by (simp only: assert_def report_one [OF format_assert] if_False if_True simp_thms)

lemma require_fails:
  "\<not> NO_REQUIRE b \<Longrightarrow> \<not> condition \<Longrightarrow>
   require ms b loc d condition ct st
     = Calls (expand ms ''exit'') EXIT_FAILURE
         (st\<lparr>stderr := stderr st @
            plain_diagnostic loc (func_name loc @ '''s precondition'') d ct @ [newline]\<rparr>)"
  by (simp only: require_def report_one [OF format_require] if_False if_True simp_thms)

lemma ensure_fails:
  "\<not> NO_ENSURE b \<Longrightarrow> \<not> condition \<Longrightarrow>
   ensure ms b loc d condition ct st
     = Calls (expand ms ''exit'') EXIT_FAILURE
         (st\<lparr>stderr := stderr st @
            plain_diagnostic loc (func_name loc @ '''s postcondition'') d ct @ [newline]\<rparr>)"
  by (simp only: ensure_def report_one [OF format_ensure] if_False if_True simp_thms)

lemma assert_x_fails:
  "\<not> NO_ASSERT b \<Longrightarrow> \<not> condition \<Longrightarrow>
   assert_x ms b loc d condition detail st
     = Calls (expand ms ''exit'') EXIT_FAILURE
         (st\<lparr>stderr := stderr st @ formatted_diagnostic loc ''assertion'' d detail @ [newline]\<rparr>)"
  by (simp only: assert_x_def report_three [OF format_assert_x format_newline]
      formatted_diagnostic_def append_assoc if_False if_True simp_thms)

lemma require_x_fails:
  "\<not> NO_REQUIRE b \<Longrightarrow> \<not> condition \<Longrightarrow>
   require_x ms b loc d condition detail st
     = Calls (expand ms ''exit'') EXIT_FAILURE
         (st\<lparr>stderr := stderr st @
            formatted_diagnostic loc (func_name loc @ '''s precondition'') d detail @ [newline]\<rparr>)"
  by (simp only: require_x_def report_three [OF format_require_x format_newline]
      formatted_diagnostic_def append_assoc if_False if_True simp_thms)

lemma ensure_x_fails:
  "\<not> NO_ENSURE b \<Longrightarrow> \<not> condition \<Longrightarrow>
   ensure_x ms b loc d condition detail st
     = Calls (expand ms ''exit'') EXIT_FAILURE
         (st\<lparr>stderr := stderr st @
            formatted_diagnostic loc (func_name loc @ '''s postcondition'') d detail @ [newline]\<rparr>)"
  by (simp only: ensure_x_def report_three [OF format_ensure_x format_newline]
      formatted_diagnostic_def append_assoc if_False if_True simp_thms)

lemma check_passes:
  "\<not> compiled_out k b \<Longrightarrow> condition \<Longrightarrow> check k ms b loc d condition ct st = Continues st"
  by (cases k) (simp_all add: check_def assert_def require_def ensure_def)

lemma check_fails:
  assumes "\<not> compiled_out k b" and "\<not> condition"
  shows "check k ms b loc d condition ct st
     = Calls (expand ms ''exit'') EXIT_FAILURE
         (st\<lparr>stderr := stderr st @ plain_diagnostic loc (subject k loc) d ct @ [newline]\<rparr>)"
proof (cases k)
  case Assertion
  with assms show ?thesis
    using assert_fails [of b condition ms loc d ct st]
    by (simp add: check_def compiled_out_def subject_def)
next
  case Precondition
  with assms show ?thesis
    using require_fails [of b condition ms loc d ct st]
    by (simp add: check_def compiled_out_def subject_def)
next
  case Postcondition
  with assms show ?thesis
    using ensure_fails [of b condition ms loc d ct st]
    by (simp add: check_def compiled_out_def subject_def)
qed

lemma check_x_passes:
  "\<not> compiled_out k b \<Longrightarrow> condition \<Longrightarrow> check_x k ms b loc d condition detail st = Continues st"
  by (cases k) (simp_all add: check_x_def compiled_out_def assert_x_def require_x_def ensure_x_def)

lemma check_x_fails:
  assumes "\<not> compiled_out k b" and "\<not> condition"
  shows "check_x k ms b loc d condition detail st
     = Calls (expand ms ''exit'') EXIT_FAILURE
         (st\<lparr>stderr := stderr st @ formatted_diagnostic loc (subject k loc) d detail @ [newline]\<rparr>)"
proof (cases k)
  case Assertion
  with assms show ?thesis
    using assert_x_fails [of b condition ms loc d detail st]
    by (simp add: check_x_def compiled_out_def subject_def)
next
  case Precondition
  with assms show ?thesis
    using require_x_fails [of b condition ms loc d detail st]
    by (simp add: check_x_def compiled_out_def subject_def)
next
  case Postcondition
  with assms show ?thesis
    using ensure_x_fails [of b condition ms loc d detail st]
    by (simp add: check_x_def compiled_out_def subject_def)
qed

lemma expand_exit: "expand client_scope ''exit'' = ''base_exit''"
  by (simp add: expand_def client_scope_def macros_after_line_def header_length_def)

lemma line_count_append: "line_count (s @ t) = line_count s + line_count t"
  by (simp add: line_count_def)

lemma line_count_newline: "line_count [newline] = 1"
  by (simp add: line_count_def)

lemma line_count_none: "newline \<notin> set s \<Longrightarrow> line_count s = 0"
  by (induction s) (auto simp: line_count_def)

lemma written_Calls: "written st (Calls f status (st\<lparr>stderr := stderr st @ t\<rparr>)) = t"
  by (simp add: written_def)


lemma digit_char_not_newline: "d < 10 \<Longrightarrow> digit_char d \<noteq> newline"
proof -
  assume "d < 10"
  then have "d \<in> {0, 1, 2, 3, 4, 5, 6, 7, 8, 9}" by auto
  then show ?thesis by (auto simp: digit_char_def newline_def)
qed

lemma dec_nat_no_newline: "newline \<notin> set (dec_nat n)"
proof (induction n rule: dec_nat.induct)
  case (1 n)
  show ?case
  proof (cases "n < 10")
    case True
    then show ?thesis
      using digit_char_not_newline [of n] by (subst dec_nat.simps) auto
  next
    case False
    then show ?thesis
      using 1 digit_char_not_newline [of "n mod 10"] by (subst dec_nat.simps) auto
  qed
qed

lemma dec_int_no_newline: "newline \<notin> set (dec_int i)"
proof -
  have "CHR ''-'' \<noteq> newline" by (simp add: newline_def)
  then show ?thesis by (simp add: dec_int_def dec_nat_no_newline)
qed

lemma line_count_head:
  "newline \<notin> set (file_name loc) \<Longrightarrow> newline \<notin> set subj \<Longrightarrow> newline \<notin> set d \<Longrightarrow>
   line_count (diagnostic_head loc subj d) = 0"
  by (rule line_count_none) (simp add: diagnostic_head_def dec_int_no_newline, simp add: newline_def)

lemma subject_no_newline:
  "newline \<notin> set (func_name loc) \<Longrightarrow> newline \<notin> set (subject k loc)"
  by (cases k) (simp_all add: subject_def, simp_all add: newline_def)

lemma line_count_plain:
  "line_count (plain_diagnostic loc subj d ct) = line_count (diagnostic_head loc subj d) + line_count ct"
  by (simp add: plain_diagnostic_def line_count_append) (simp add: line_count_def newline_def)

lemma line_count_formatted:
  "line_count (formatted_diagnostic loc subj d detail)
     = line_count (diagnostic_head loc subj d) + line_count detail"
  by (simp add: formatted_diagnostic_def line_count_append) (simp add: line_count_def newline_def)

lemmas eval_simps = checks_enabled_def example_site_def plain_diagnostic_def
  formatted_diagnostic_def diagnostic_head_def dec_int_def dec_nat.simps digit_char_def
  newline_def EXIT_FAILURE_def

subsection \<open>The effect of a check\<close>

text \<open>
  Claim C3, as the code has it. For every use of \<^verbatim>\<open>assert\<close>, \<^verbatim>\<open>require\<close>,
  \<^verbatim>\<open>ensure\<close> and of their \<^verbatim>\<open>_x\<close> variants in client code, with the check compiled
  in: when the condition is true the process continues with its state unchanged; when it
  is false the error stream receives the diagnostic (location, subject, description, and
  the condition text or the formatted detail) followed by one newline, and
  \<^verbatim>\<open>exit(EXIT_FAILURE)\<close> is called, which client code reaches as \<^verbatim>\<open>base_exit\<close>.
  The text written has one line more than the diagnostic itself contains newlines: it is
  exactly one line when file name, function name, description and condition text or
  detail contain none. The detail of an \<^verbatim>\<open>_x\<close> variant is any text that the client's
  format and arguments print.
\<close>

theorem check_effect:
  assumes "\<not> compiled_out k b"
  shows "(condition \<longrightarrow>
            check k client_scope b loc d condition ct st = Continues st
          \<and> check_x k client_scope b loc d condition detail st = Continues st)
       \<and> (\<not> condition \<longrightarrow>
            check k client_scope b loc d condition ct st
              = Calls ''base_exit'' EXIT_FAILURE
                  (st\<lparr>stderr := stderr st @ plain_diagnostic loc (subject k loc) d ct @ [newline]\<rparr>)
          \<and> line_count (written st (check k client_scope b loc d condition ct st))
              = Suc (line_count (plain_diagnostic loc (subject k loc) d ct))
          \<and> check_x k client_scope b loc d condition detail st
              = Calls ''base_exit'' EXIT_FAILURE
                  (st\<lparr>stderr := stderr st @ formatted_diagnostic loc (subject k loc) d detail @ [newline]\<rparr>)
          \<and> line_count (written st (check_x k client_scope b loc d condition detail st))
              = Suc (line_count (formatted_diagnostic loc (subject k loc) d detail)))
       \<and> (\<not> condition \<and> newline \<notin> set (file_name loc) \<and> newline \<notin> set (func_name loc)
            \<and> newline \<notin> set d \<longrightarrow>
            (newline \<notin> set ct \<longrightarrow>
               line_count (written st (check k client_scope b loc d condition ct st)) = 1)
          \<and> (newline \<notin> set detail \<longrightarrow>
               line_count (written st (check_x k client_scope b loc d condition detail st)) = 1))
       \<and> EXIT_FAILURE \<noteq> EXIT_SUCCESS"
proof -
  have pass: "check k client_scope b loc d condition ct st = Continues st"
    "check_x k client_scope b loc d condition detail st = Continues st" if condition
    using assms that by (simp_all add: check_passes check_x_passes)
  have plain: "check k client_scope b loc d condition ct st
      = Calls ''base_exit'' EXIT_FAILURE
          (st\<lparr>stderr := stderr st @ plain_diagnostic loc (subject k loc) d ct @ [newline]\<rparr>)"
    if "\<not> condition"
    using check_fails [OF assms that, of client_scope] by (simp only: expand_exit)
  have formatted: "check_x k client_scope b loc d condition detail st
      = Calls ''base_exit'' EXIT_FAILURE
          (st\<lparr>stderr := stderr st @ formatted_diagnostic loc (subject k loc) d detail @ [newline]\<rparr>)"
    if "\<not> condition"
    using check_x_fails [OF assms that, of client_scope] by (simp only: expand_exit)
  have plain_lines: "line_count (written st (check k client_scope b loc d condition ct st))
      = Suc (line_count (plain_diagnostic loc (subject k loc) d ct))"
    if "\<not> condition"
    by (simp only: plain [OF that] written_Calls line_count_append line_count_newline)
  have formatted_lines: "line_count (written st (check_x k client_scope b loc d condition detail st))
      = Suc (line_count (formatted_diagnostic loc (subject k loc) d detail))"
    if "\<not> condition"
    by (simp only: formatted [OF that] written_Calls line_count_append line_count_newline)
  have head: "line_count (diagnostic_head loc (subject k loc) d) = 0"
    if "newline \<notin> set (file_name loc)" and "newline \<notin> set (func_name loc)" and "newline \<notin> set d"
    using that by (simp add: line_count_head subject_no_newline)
  have one_plain: "line_count (written st (check k client_scope b loc d condition ct st)) = 1"
    if "\<not> condition" and "newline \<notin> set (file_name loc)" and "newline \<notin> set (func_name loc)"
      and "newline \<notin> set d" and "newline \<notin> set ct"
    using plain_lines [OF that(1)] head [OF that(2,3,4)] that(5)
    by (simp add: line_count_plain line_count_none)
  have one_formatted: "line_count (written st (check_x k client_scope b loc d condition detail st)) = 1"
    if "\<not> condition" and "newline \<notin> set (file_name loc)" and "newline \<notin> set (func_name loc)"
      and "newline \<notin> set d" and "newline \<notin> set detail"
    using formatted_lines [OF that(1)] head [OF that(2,3,4)] that(5)
    by (simp add: line_count_formatted line_count_none)
  have status: "EXIT_FAILURE \<noteq> EXIT_SUCCESS"
    by (simp add: EXIT_FAILURE_def EXIT_SUCCESS_def)
  from pass plain formatted plain_lines formatted_lines one_plain one_formatted status
  show ?thesis by blast
qed

text \<open>
  The example of the header's documentation: \<^verbatim>\<open>require("not too large", x < 3)\<close> and
  \<^verbatim>\<open>require_x("not too large", x < 3, "x == %d", x)\<close> with \<open>x = 3\<close>, on line 18 of
  \<^verbatim>\<open>myfile.c\<close> in \<^verbatim>\<open>myfunction\<close>; the detail printed is \<^verbatim>\<open>x == 3\<close>.
\<close>

theorem check_effect_witness:
  \<open>check Precondition client_scope checks_enabled example_site ''not too large'' False ''x < 3''
       \<lparr>stderr = []\<rparr>
     = Calls ''base_exit'' 1
         \<lparr>stderr = ''myfile.c, line 18: myfunction's precondition "not too large" (x < 3) violated''
            @ [CHR 0x0A]\<rparr>
   \<and> line_count (written \<lparr>stderr = []\<rparr>
        (check Precondition client_scope checks_enabled example_site ''not too large'' False ''x < 3''
           \<lparr>stderr = []\<rparr>)) = 1
   \<and> check_x Precondition client_scope checks_enabled example_site ''not too large'' False
        ''x == 3'' \<lparr>stderr = []\<rparr>
     = Calls ''base_exit'' 1
         \<lparr>stderr = ''myfile.c, line 18: myfunction's precondition "not too large" violated: x == 3''
            @ [CHR 0x0A]\<rparr>
   \<and> check Precondition client_scope checks_enabled example_site ''not too large'' True ''x < 3''
        \<lparr>stderr = []\<rparr>
     = Continues \<lparr>stderr = []\<rparr>\<close>
proof -
  have e: "\<not> compiled_out Precondition checks_enabled"
    by (simp add: compiled_out_def checks_enabled_def)
  note t = check_effect [OF e, of _ example_site "''not too large''" "''x < 3''" "\<lparr>stderr = []\<rparr>"
        "''x == 3''"]
  have 1: "check Precondition client_scope checks_enabled example_site ''not too large'' False ''x < 3''
       \<lparr>stderr = []\<rparr>
     = Calls ''base_exit'' EXIT_FAILURE
          (\<lparr>stderr = []\<rparr>\<lparr>stderr := stderr \<lparr>stderr = []\<rparr> @ plain_diagnostic example_site (subject Precondition example_site) ''not too large'' ''x < 3'' @ [newline]\<rparr>)"
    using t [of False] by blast
  have 2: "check_x Precondition client_scope checks_enabled example_site ''not too large'' False
        ''x == 3'' \<lparr>stderr = []\<rparr>
     = Calls ''base_exit'' EXIT_FAILURE
          (\<lparr>stderr = []\<rparr>\<lparr>stderr := stderr \<lparr>stderr = []\<rparr> @ formatted_diagnostic example_site (subject Precondition example_site) ''not too large'' ''x == 3'' @ [newline]\<rparr>)"
    using t [of False] by blast
  have 3: "check Precondition client_scope checks_enabled example_site ''not too large'' True ''x < 3''
        \<lparr>stderr = []\<rparr>
     = Continues \<lparr>stderr = []\<rparr>"
    using t [of True] by blast
  show ?thesis
    unfolding 1 2 3
    by (simp add: eval_simps subject_def line_count_def written_def)
qed

text \<open>
  Claim C3 as stated promises exactly one diagnostic line for every failed check. A detail
  that reports two values on two lines, as in
  \<^verbatim>\<open>assert_x("sorted", a[2] <= a[3], "a[2] == %d\na[3] == %d", a[2], a[3])\<close> with the
  values 5 and 4, makes the macro write two lines.
\<close>

theorem check_x_two_lines:
  \<open>assert_x client_scope checks_enabled example_site ''sorted'' False
      (''a[2] == 5'' @ [newline] @ ''a[3] == 4'') \<lparr>stderr = []\<rparr>
     = Calls ''base_exit'' 1
         \<lparr>stderr = ''myfile.c, line 18: assertion "sorted" violated: a[2] == 5'' @ [CHR 0x0A]
            @ ''a[3] == 4'' @ [CHR 0x0A]\<rparr>
   \<and> line_count (written \<lparr>stderr = []\<rparr>
        (assert_x client_scope checks_enabled example_site ''sorted'' False
           (''a[2] == 5'' @ [newline] @ ''a[3] == 4'') \<lparr>stderr = []\<rparr>)) = 2\<close>
  by (simp add: assert_x_def report_and_exit_def fprintf_stderr_def written_def line_count_def
      expand_exit eval_simps)

subsection \<open>The format of the diagnostics\<close>

text \<open>
  Claim C4. The text that a failed check writes is, for \<^verbatim>\<open>assert\<close>,
  \<^verbatim>\<open><file>, line <line>: assertion "<description>" (<condition-text>) violated\<close>;
  \<^verbatim>\<open>require\<close> and \<^verbatim>\<open>ensure\<close> have \<^verbatim>\<open><function>'s precondition\<close> and
  \<^verbatim>\<open><function>'s postcondition\<close> after the line number, where \<^verbatim>\<open>assert\<close> has the
  word \<^verbatim>\<open>assertion\<close>; the \<^verbatim>\<open>_x\<close> variants end in
  \<^verbatim>\<open> violated: <formatted detail>\<close> where the plain ones end in the parenthesized
  condition text and \<^verbatim>\<open> violated\<close>. Each text is followed by one newline. This holds
  for each macro whenever its own switch leaves it compiled in, and for every detail that
  the client's format and arguments print.
\<close>

theorem diagnostic_format:
  \<open>(\<not> NO_ASSERT b \<longrightarrow>
       written st (assert ms b loc d False ct st)
         = file_name loc @ '', line '' @ dec_int (line_no loc) @ '': assertion "'' @ d @ ''" (''
             @ ct @ '') violated'' @ [newline]
     \<and> written st (assert_x ms b loc d False detail st)
         = file_name loc @ '', line '' @ dec_int (line_no loc) @ '': assertion "'' @ d
             @ ''" violated: '' @ detail @ [newline])
   \<and> (\<not> NO_REQUIRE b \<longrightarrow>
       written st (require ms b loc d False ct st)
         = file_name loc @ '', line '' @ dec_int (line_no loc) @ '': '' @ func_name loc
             @ '''s precondition "'' @ d @ ''" ('' @ ct @ '') violated'' @ [newline]
     \<and> written st (require_x ms b loc d False detail st)
         = file_name loc @ '', line '' @ dec_int (line_no loc) @ '': '' @ func_name loc
             @ '''s precondition "'' @ d @ ''" violated: '' @ detail @ [newline])
   \<and> (\<not> NO_ENSURE b \<longrightarrow>
       written st (ensure ms b loc d False ct st)
         = file_name loc @ '', line '' @ dec_int (line_no loc) @ '': '' @ func_name loc
             @ '''s postcondition "'' @ d @ ''" ('' @ ct @ '') violated'' @ [newline]
     \<and> written st (ensure_x ms b loc d False detail st)
         = file_name loc @ '', line '' @ dec_int (line_no loc) @ '': '' @ func_name loc
             @ '''s postcondition "'' @ d @ ''" violated: '' @ detail @ [newline])\<close>
proof -
  have f: "\<not> False" by simp
  have a1: \<open>written st (assert ms b loc d False ct st)
      = file_name loc @ '', line '' @ dec_int (line_no loc) @ '': assertion "'' @ d @ ''" (''
          @ ct @ '') violated'' @ [newline]\<close> if "\<not> NO_ASSERT b"
    unfolding assert_fails [OF that f] written_Calls
    by (simp add: plain_diagnostic_def diagnostic_head_def)
  have a2: \<open>written st (assert_x ms b loc d False detail st)
      = file_name loc @ '', line '' @ dec_int (line_no loc) @ '': assertion "'' @ d
          @ ''" violated: '' @ detail @ [newline]\<close> if "\<not> NO_ASSERT b"
    unfolding assert_x_fails [OF that f] written_Calls
    by (simp add: formatted_diagnostic_def diagnostic_head_def)
  have r1: \<open>written st (require ms b loc d False ct st)
      = file_name loc @ '', line '' @ dec_int (line_no loc) @ '': '' @ func_name loc
          @ '''s precondition "'' @ d @ ''" ('' @ ct @ '') violated'' @ [newline]\<close>
    if "\<not> NO_REQUIRE b"
    unfolding require_fails [OF that f] written_Calls
    by (simp add: plain_diagnostic_def diagnostic_head_def)
  have r2: \<open>written st (require_x ms b loc d False detail st)
      = file_name loc @ '', line '' @ dec_int (line_no loc) @ '': '' @ func_name loc
          @ '''s precondition "'' @ d @ ''" violated: '' @ detail @ [newline]\<close>
    if "\<not> NO_REQUIRE b"
    unfolding require_x_fails [OF that f] written_Calls
    by (simp add: formatted_diagnostic_def diagnostic_head_def)
  have e1: \<open>written st (ensure ms b loc d False ct st)
      = file_name loc @ '', line '' @ dec_int (line_no loc) @ '': '' @ func_name loc
          @ '''s postcondition "'' @ d @ ''" ('' @ ct @ '') violated'' @ [newline]\<close>
    if "\<not> NO_ENSURE b"
    unfolding ensure_fails [OF that f] written_Calls
    by (simp add: plain_diagnostic_def diagnostic_head_def)
  have e2: \<open>written st (ensure_x ms b loc d False detail st)
      = file_name loc @ '', line '' @ dec_int (line_no loc) @ '': '' @ func_name loc
          @ '''s postcondition "'' @ d @ ''" violated: '' @ detail @ [newline]\<close>
    if "\<not> NO_ENSURE b"
    unfolding ensure_x_fails [OF that f] written_Calls
    by (simp add: formatted_diagnostic_def diagnostic_head_def)
  from a1 a2 r1 r2 e1 e2 show ?thesis
    by (intro conjI impI)
qed

text \<open>
  The three example outputs of the header's documentation, in a build that compiles
  postconditions out for the first two and assertions out for the third.
\<close>

theorem diagnostic_format_witness:
  \<open>written \<lparr>stderr = []\<rparr>
      (assert client_scope \<lparr>NO_ASSERT = False, NO_REQUIRE = False, NO_ENSURE = True\<rparr> example_site
         ''not too large'' False ''x < 3'' \<lparr>stderr = []\<rparr>)
     = ''myfile.c, line 18: assertion "not too large" (x < 3) violated'' @ [CHR 0x0A]
   \<and> written \<lparr>stderr = []\<rparr>
      (require client_scope \<lparr>NO_ASSERT = False, NO_REQUIRE = False, NO_ENSURE = True\<rparr> example_site
         ''not too large'' False ''x < 3'' \<lparr>stderr = []\<rparr>)
     = ''myfile.c, line 18: myfunction's precondition "not too large" (x < 3) violated'' @ [CHR 0x0A]
   \<and> written \<lparr>stderr = []\<rparr>
      (ensure_x client_scope \<lparr>NO_ASSERT = True, NO_REQUIRE = False, NO_ENSURE = False\<rparr> example_site
         ''not negative'' False ''result == -1'' \<lparr>stderr = []\<rparr>)
     = ''myfile.c, line 18: myfunction's postcondition "not negative" violated: result == -1''
         @ [CHR 0x0A]\<close>
  using
    diagnostic_format [of "\<lparr>NO_ASSERT = False, NO_REQUIRE = False, NO_ENSURE = True\<rparr>"
      "\<lparr>stderr = []\<rparr>" client_scope example_site "''not too large''" "''x < 3''" "''''"]
    diagnostic_format [of "\<lparr>NO_ASSERT = True, NO_REQUIRE = False, NO_ENSURE = False\<rparr>"
      "\<lparr>stderr = []\<rparr>" client_scope example_site "''not negative''" "''''" "''result == -1''"]
  by (simp add: example_site_def dec_int_def dec_nat.simps digit_char_def newline_def)

subsection \<open>The check for a null pointer\<close>

text \<open>
  When the source text of the argument contains no percent sign,
  \<^verbatim>\<open>require_not_null\<close> reports like \<^verbatim>\<open>require\<close> with the description
  \<^verbatim>\<open>not null\<close>, and it does so exactly when its test \<^verbatim>\<open>argument == NULL\<close>
  holds. For an argument that is an operand of \<^verbatim>\<open>==\<close> that is when the argument is
  \<^verbatim>\<open>NULL\<close>.
\<close>

lemma require_not_null_plain:
  assumes "\<not> NO_REQUIRE b" and "CHR ''%'' \<notin> set argument_text"
  shows "require_not_null ms b loc argument argument_text st
     = (if equals_NULL argument
        then Calls (expand ms ''exit'') EXIT_FAILURE
          (st\<lparr>stderr := stderr st @
             plain_diagnostic loc (func_name loc @ '''s precondition'') ''not null'' argument_text
             @ [newline]\<rparr>)
        else Continues st)"
proof -
  have \<open>format (''%s, line %d: %s's precondition "not null" ('' @ argument_text @ '') violated''
            @ [newline])
          [Str (file_name loc), Num (line_no loc), Str (func_name loc)]
        = Inr (plain_diagnostic loc (func_name loc @ '''s precondition'') ''not null'' argument_text
            @ [newline])\<close>
    using assms(2)
    by (simp add: format_plain newline_def plain_diagnostic_def diagnostic_head_def)
  from report_one [OF this] assms(1) show ?thesis
    by (simp only: require_not_null_def if_False)
qed

lemma require_not_null_operand:
  assumes "\<not> NO_REQUIRE b" and "CHR ''%'' \<notin> set argument_text"
  shows "require_not_null ms b loc (Operand p) argument_text st
     = (if p = NULL
        then Calls (expand ms ''exit'') EXIT_FAILURE
          (st\<lparr>stderr := stderr st @
             plain_diagnostic loc (func_name loc @ '''s precondition'') ''not null'' argument_text
             @ [newline]\<rparr>)
        else Continues st)"
  using require_not_null_plain [OF assms, of ms loc "Operand p" st] by simp

text \<open>
  For a conditional argument the test is not about the value of the argument:
  \<^verbatim>\<open>require_not_null(use_a ? a : b)\<close> with \<^verbatim>\<open>use_a\<close> true reports exactly when
  \<^verbatim>\<open>a\<close> is not \<^verbatim>\<open>NULL\<close>.
\<close>

lemma require_not_null_conditional:
  assumes "\<not> NO_REQUIRE b" and "CHR ''%'' \<notin> set argument_text"
  shows "argument_value (Conditional True a other) = a
       \<and> require_not_null ms b loc (Conditional True a other) argument_text st
           = (if a = NULL then Continues st
              else Calls (expand ms ''exit'') EXIT_FAILURE
                (st\<lparr>stderr := stderr st @
                   plain_diagnostic loc (func_name loc @ '''s precondition'') ''not null''
                     argument_text @ [newline]\<rparr>))"
  using require_not_null_plain [OF assms, of ms loc "Conditional True a other" st] by simp

text \<open>
  Claim C6 fails on the code for an argument whose source text contains a percent sign.
  The macro pastes the text into the format string, where \<^verbatim>\<open>require\<close> passes the
  text of its condition as an argument of \<^verbatim>\<open>%s\<close>. For
  \<^verbatim>\<open>require_not_null(table[i%n])\<close> with a null element the format string contains
  \<^verbatim>\<open>%n\<close>, for which \<^verbatim>\<open>fprintf\<close> has no argument: the diagnostic
  \<^verbatim>\<open>... lookup's precondition "not null" (table[i%n]) violated\<close> is not printed and
  \<^verbatim>\<open>exit\<close> is not reached in a defined way. The missing parentheses in the test,
  shown by the lemma before, are a second slip of the same macro.
\<close>

theorem require_not_null_percent:
  "require_not_null client_scope checks_enabled
     \<lparr>file_name = ''myfile.c'', line_no = 18, func_name = ''lookup''\<rparr> (Operand NULL)
     ''table[i%n]'' \<lparr>stderr = []\<rparr>
   = Format_error Missing_argument"
  by (simp add: require_not_null_def checks_enabled_def report_and_exit_def fprintf_stderr_def
      newline_def)

subsection \<open>Which function ends the process\<close>

lemma expand_exit_before: "n < 623 \<Longrightarrow> expand (macros_after_line n) ''exit'' = ''exit''"
  by (simp add: expand_def macros_after_line_def)

text \<open>
  Claim C10. In client code the identifier \<^verbatim>\<open>exit\<close> is the macro for
  \<^verbatim>\<open>base_exit\<close>. A failed \<^verbatim>\<open>assert\<close>, \<^verbatim>\<open>require\<close> or \<^verbatim>\<open>ensure\<close> (and a failed
  \<^verbatim>\<open>_x\<close> variant) therefore ends the process by the call
  \<^verbatim>\<open>base_exit(EXIT_FAILURE)\<close>, after the diagnostic has been written: whatever
  \<^verbatim>\<open>base_exit\<close> does at exit is done on a contract violation too, and the
  \<^verbatim>\<open>exit\<close> of the C library is not called directly. The reason is the place where the
  macro body is scanned: with the macros in force at any line before 623, where the
  checking macros are defined, the same body would call the library's \<^verbatim>\<open>exit\<close>.
\<close>

theorem violation_calls_base_exit:
  assumes "\<not> compiled_out k b" and "\<not> condition"
  shows "expand client_scope ''exit'' = ''base_exit''
       \<and> finish base_exit_fn exit_fn (check k client_scope b loc d condition ct st)
           = Some (base_exit_fn EXIT_FAILURE
               (st\<lparr>stderr := stderr st @ plain_diagnostic loc (subject k loc) d ct @ [newline]\<rparr>))
       \<and> finish base_exit_fn exit_fn (check_x k client_scope b loc d condition detail st)
           = Some (base_exit_fn EXIT_FAILURE
               (st\<lparr>stderr := stderr st @ formatted_diagnostic loc (subject k loc) d detail
                  @ [newline]\<rparr>))
       \<and> (n < 623 \<longrightarrow>
           expand (macros_after_line n) ''exit'' = ''exit''
         \<and> finish base_exit_fn exit_fn (check k (macros_after_line n) b loc d condition ct st)
             = Some (exit_fn EXIT_FAILURE
                 (st\<lparr>stderr := stderr st @ plain_diagnostic loc (subject k loc) d ct @ [newline]\<rparr>)))"
  using assms
  by (simp add: check_fails check_x_fails expand_exit expand_exit_before finish_def)

text \<open>
  A failed assertion with two stand-ins for the functions, each returning its own name,
  the status and the error stream: scanned in client code, and scanned at line 208.
\<close>

theorem violation_calls_base_exit_witness:
  \<open>finish (\<lambda>status st. (''base_exit'', status, stderr st)) (\<lambda>status st. (''exit'', status, stderr st))
      (check Assertion client_scope checks_enabled example_site ''not too large'' False ''x < 3''
         \<lparr>stderr = []\<rparr>)
     = Some (''base_exit'', 1,
         ''myfile.c, line 18: assertion "not too large" (x < 3) violated'' @ [CHR 0x0A])
   \<and> finish (\<lambda>status st. (''base_exit'', status, stderr st)) (\<lambda>status st. (''exit'', status, stderr st))
      (check_x Assertion client_scope checks_enabled example_site ''not too large'' False ''x == 3''
         \<lparr>stderr = []\<rparr>)
     = Some (''base_exit'', 1,
         ''myfile.c, line 18: assertion "not too large" violated: x == 3'' @ [CHR 0x0A])
   \<and> finish (\<lambda>status st. (''base_exit'', status, stderr st)) (\<lambda>status st. (''exit'', status, stderr st))
      (check Assertion (macros_after_line 208) checks_enabled example_site ''not too large'' False
         ''x < 3'' \<lparr>stderr = []\<rparr>)
     = Some (''exit'', 1,
         ''myfile.c, line 18: assertion "not too large" (x < 3) violated'' @ [CHR 0x0A])\<close>
proof -
  have e: "\<not> compiled_out Assertion checks_enabled"
    by (simp add: compiled_out_def checks_enabled_def)
  have f: "\<not> False" by simp
  show ?thesis
    using violation_calls_base_exit [OF e f,
        of "\<lambda>status st. (''base_exit'', status, stderr st)"
           "\<lambda>status st. (''exit'', status, stderr st)"
           example_site "''not too large''" "''x < 3''" "\<lparr>stderr = []\<rparr>" "''x == 3''" 208]
    by (simp add: eval_simps subject_def)
qed

subsection \<open>The identifiers free and exit in client code\<close>

lemma expand_client:
  "expand client_scope t
     = (if t = ''free'' then ''base_free'' else if t = ''exit'' then ''base_exit'' else t)"
  by (simp add: expand_def client_scope_def macros_after_line_def header_length_def)

text \<open>
  Claim C9. After the header, every identifier token \<^verbatim>\<open>free\<close> of client code is
  replaced by \<^verbatim>\<open>base_free\<close> and every \<^verbatim>\<open>exit\<close> by \<^verbatim>\<open>base_exit\<close>, all other
  tokens stay: the preprocessed client code contains no reference to the \<^verbatim>\<open>free\<close>
  or the \<^verbatim>\<open>exit\<close> of the C library, so no call of either goes past the ledger or past
  the exit hook.
\<close>

theorem client_tokens_redirected:
  "''free'' \<notin> set (preprocess client_scope toks)
   \<and> ''exit'' \<notin> set (preprocess client_scope toks)
   \<and> length (preprocess client_scope toks) = length toks
   \<and> (\<forall>i < length toks.
        (toks ! i = ''free'' \<longrightarrow> preprocess client_scope toks ! i = ''base_free'')
      \<and> (toks ! i = ''exit'' \<longrightarrow> preprocess client_scope toks ! i = ''base_exit'')
      \<and> (toks ! i \<noteq> ''free'' \<and> toks ! i \<noteq> ''exit'' \<longrightarrow> preprocess client_scope toks ! i = toks ! i))"
  by (auto simp: preprocess_def expand_client)


text \<open>The tokens of \<^verbatim>\<open>free(p); exit(0);\<close>.\<close>

theorem client_tokens_redirected_witness:
  "preprocess client_scope [''free'', ''('', ''p'', '')'', '';'', ''exit'', ''('', ''0'', '')'', '';''] ! 0
     = ''base_free''
   \<and> preprocess client_scope [''free'', ''('', ''p'', '')'', '';'', ''exit'', ''('', ''0'', '')'', '';''] ! 5
     = ''base_exit''"
  using client_tokens_redirected [of "[''free'', ''('', ''p'', '')'', '';'', ''exit'', ''('', ''0'', '')'', '';'']"]
  by (simp add: nth_Cons')

section \<open>Properties of the quantifiers\<close>

lemma steps_funpow: "steps n do_step s = map (\<lambda>k. (do_step ^^ k) s) [0..<n]"
proof (induction n arbitrary: s)
  case 0
  show ?case by simp
next
  case (Suc n)
  have "map (\<lambda>k. (do_step ^^ k) s) [0..<Suc n]
      = s # map (\<lambda>k. (do_step ^^ k) (do_step s)) [0..<n]"
    by (simp add: upt_conv_Cons map_Suc_upt [symmetric] funpow_swap1 del: upt_Suc)
  with Suc show ?case by simp
qed

lemma iterates_0: "iterates 0 s hm ds = (\<not> hm s)"
  by (simp add: iterates_def)

lemma iterates_Suc: "iterates (Suc n) s hm ds = (hm s \<and> iterates n (ds s) hm ds)"
  by (simp add: iterates_def funpow_swap1)

lemma length_steps: "length (steps n ds s) = n"
  by (induction n arbitrary: s) simp_all

lemma counting_iterates: "s + int n = bound \<Longrightarrow> iterates n s (\<lambda>i. i < bound) (\<lambda>i. i + 1)"
proof (induction n arbitrary: s)
  case 0
  then show ?case by (simp add: iterates_0)
next
  case (Suc n)
  then show ?case by (simp add: iterates_Suc)
qed

lemma next_scope_keeping: "next_scope Macro_variable (keeping ds) s r = (ds s, r)"
  by (simp add: next_scope_def keeping_def)

lemma forall_loop_plain:
  "forall_loop Macro_variable (ignoring hm) (keeping ds) (ignoring c) s r
     = (if hm s then
          if c s then forall_loop Macro_variable (ignoring hm) (keeping ds) (ignoring c) (ds s) r
          else Some False
        else Some r)"
  by (subst forall_loop.simps)
    (simp add: ignoring_def seen_def assigned_def next_scope_keeping)

lemma exists_loop_plain:
  "exists_loop Macro_variable (ignoring hm) (keeping ds) (ignoring c) s r
     = (if hm s then
          if c s then Some True
          else exists_loop Macro_variable (ignoring hm) (keeping ds) (ignoring c) (ds s) r
        else Some r)"
  by (subst exists_loop.simps)
    (simp add: ignoring_def seen_def assigned_def next_scope_keeping)

lemma countif_loop_plain:
  "countif_loop Macro_variable (ignoring hm) (keeping ds) (ignoring c) s r
     = (if hm s then
          if c s then
            if r = INT_MAX then Some Signed_overflow
            else countif_loop Macro_variable (ignoring hm) (keeping ds) (ignoring c) (ds s) (r + 1)
          else countif_loop Macro_variable (ignoring hm) (keeping ds) (ignoring c) (ds s) r
        else Some (Value r))"
  by (subst countif_loop.simps)
    (simp add: ignoring_def seen_def increment_def next_scope_keeping)

lemma forall_loop_steps:
  "iterates n s hm ds \<Longrightarrow>
   forall_loop Macro_variable (ignoring hm) (keeping ds) (ignoring c) s r
     = Some (list_all c (steps n ds s) \<and> r)"
proof (induction n arbitrary: s)
  case 0
  then show ?case
    by (subst forall_loop_plain) (simp add: iterates_0)
next
  case (Suc n)
  then show ?case
    by (subst forall_loop_plain) (simp add: iterates_Suc)
qed

lemma exists_loop_steps:
  "iterates n s hm ds \<Longrightarrow>
   exists_loop Macro_variable (ignoring hm) (keeping ds) (ignoring c) s r
     = Some (list_ex c (steps n ds s) \<or> r)"
proof (induction n arbitrary: s)
  case 0
  then show ?case
    by (subst exists_loop_plain) (simp add: iterates_0)
next
  case (Suc n)
  then show ?case
    by (subst exists_loop_plain) (simp add: iterates_Suc)
qed

lemma countif_loop_steps:
  "iterates n s hm ds \<Longrightarrow> r + int (length (filter c (steps n ds s))) \<le> INT_MAX \<Longrightarrow>
   countif_loop Macro_variable (ignoring hm) (keeping ds) (ignoring c) s r
     = Some (Value (r + int (length (filter c (steps n ds s)))))"
proof (induction n arbitrary: s r)
  case 0
  then show ?case
    by (subst countif_loop_plain) (simp add: iterates_0)
next
  case (Suc n)
  from Suc.prems(1) have hm: "hm s" and it: "iterates n (ds s) hm ds"
    by (simp_all add: iterates_Suc)
  show ?case
  proof (cases "c s")
    case True
    with Suc.prems(2) have le: "(r + 1) + int (length (filter c (steps n ds (ds s)))) \<le> INT_MAX"
      by simp
    then have "r \<noteq> INT_MAX" by linarith
    with True hm Suc.IH [OF it le] show ?thesis
      by (subst countif_loop_plain) simp
  next
    case False
    with Suc.prems(2) have le: "r + int (length (filter c (steps n ds (ds s)))) \<le> INT_MAX"
      by simp
    with False hm Suc.IH [OF it le] show ?thesis
      by (subst countif_loop_plain) simp
  qed
qed

lemma countif_loop_overflow:
  "iterates n s hm ds \<Longrightarrow> r \<le> INT_MAX \<Longrightarrow>
   INT_MAX < r + int (length (filter c (steps n ds s))) \<Longrightarrow>
   countif_loop Macro_variable (ignoring hm) (keeping ds) (ignoring c) s r = Some Signed_overflow"
proof (induction n arbitrary: s r)
  case 0
  then show ?case by simp
next
  case (Suc n)
  from Suc.prems(1) have hm: "hm s" and it: "iterates n (ds s) hm ds"
    by (simp_all add: iterates_Suc)
  show ?case
  proof (cases "c s")
    case True
    show ?thesis
    proof (cases "r = INT_MAX")
      case True
      with \<open>c s\<close> hm show ?thesis
        by (subst countif_loop_plain) simp
    next
      case False
      with Suc.prems(2) have le: "r + 1 \<le> INT_MAX" by simp
      from True Suc.prems(3) have "INT_MAX < (r + 1) + int (length (filter c (steps n ds (ds s))))"
        by simp
      with False True hm Suc.IH [OF it le] show ?thesis
        by (subst countif_loop_plain) simp
    qed
  next
    case False
    with Suc.prems(3) have "INT_MAX < r + int (length (filter c (steps n ds (ds s))))"
      by simp
    with False hm Suc.IH [OF it Suc.prems(2)] show ?thesis
      by (subst countif_loop_plain) simp
  qed
qed

text \<open>
  Claim C5, as the code has it. Let \<^verbatim>\<open>init\<close>, \<^verbatim>\<open>has_more_steps\<close>, \<^verbatim>\<open>do_step\<close> and
  \<^verbatim>\<open>condition\<close> neither use nor declare the identifier \<^verbatim>\<open>result\<close>, and let the
  iteration they describe have exactly \<open>n\<close> steps, whose states are \<open>init\<close>,
  \<open>do_step init\<close>, and so on. Then each macro returns: \<^verbatim>\<open>forall\<close> returns whether
  the condition holds at every step, \<^verbatim>\<open>exists\<close> whether it holds at some step, and
  \<^verbatim>\<open>countif\<close> the number of steps at which it holds when that number is at most
  \<^verbatim>\<open>INT_MAX\<close>; beyond it the increment of the macro's \<^verbatim>\<open>int\<close> overflows.
\<close>

theorem quantifiers_reduce:
  assumes "iterates n init has_more_steps do_step"
  shows "steps n do_step init = map (\<lambda>k. (do_step ^^ k) init) [0..<n]
       \<and> forall Macro_variable (\<lambda>r. init) (ignoring has_more_steps) (keeping do_step)
             (ignoring condition)
           = Some (\<forall>s \<in> set (steps n do_step init). condition s)
       \<and> exists Macro_variable (\<lambda>r. init) (ignoring has_more_steps) (keeping do_step)
             (ignoring condition)
           = Some (\<exists>s \<in> set (steps n do_step init). condition s)
       \<and> countif Macro_variable (\<lambda>r. init) (ignoring has_more_steps) (keeping do_step)
             (ignoring condition)
           = Some (if int (length (filter condition (steps n do_step init))) \<le> INT_MAX
                   then Value (int (length (filter condition (steps n do_step init))))
                   else Signed_overflow)"
proof (intro conjI)
  show "steps n do_step init = map (\<lambda>k. (do_step ^^ k) init) [0..<n]"
    by (rule steps_funpow)
  show "forall Macro_variable (\<lambda>r. init) (ignoring has_more_steps) (keeping do_step)
        (ignoring condition)
      = Some (\<forall>s \<in> set (steps n do_step init). condition s)"
    using forall_loop_steps [OF assms, of condition True]
    by (simp add: forall_def list_all_iff)
  show "exists Macro_variable (\<lambda>r. init) (ignoring has_more_steps) (keeping do_step)
        (ignoring condition)
      = Some (\<exists>s \<in> set (steps n do_step init). condition s)"
    using exists_loop_steps [OF assms, of condition False]
    by (simp add: exists_def list_ex_iff)
  show "countif Macro_variable (\<lambda>r. init) (ignoring has_more_steps) (keeping do_step)
        (ignoring condition)
      = Some (if int (length (filter condition (steps n do_step init))) \<le> INT_MAX
              then Value (int (length (filter condition (steps n do_step init))))
              else Signed_overflow)"
    using countif_loop_steps [OF assms, of 0 condition]
      countif_loop_overflow [OF assms, of 0 condition]
    by (simp add: countif_def INT_MAX_def)
qed

text \<open>
  The example of the header's documentation,
  \<^verbatim>\<open>forall(int i = 0, i < n - 1, i++, a[i] <= a[i+1])\<close>, on the array
  \<open>1, 2, 2, 5, 3\<close>: the condition holds at three of the four steps.
\<close>

theorem quantifiers_reduce_witness:
  "forall Macro_variable (\<lambda>r. 0::int) (ignoring (\<lambda>i. i < 4)) (keeping (\<lambda>i. i + 1))
     (ignoring (\<lambda>i. [1, 2, 2, 5, 3::int] ! nat i \<le> [1, 2, 2, 5, 3] ! nat (i + 1)))
     = Some False
   \<and> exists Macro_variable (\<lambda>r. 0::int) (ignoring (\<lambda>i. i < 4)) (keeping (\<lambda>i. i + 1))
     (ignoring (\<lambda>i. [1, 2, 2, 5, 3::int] ! nat i \<le> [1, 2, 2, 5, 3] ! nat (i + 1)))
     = Some True
   \<and> countif Macro_variable (\<lambda>r. 0::int) (ignoring (\<lambda>i. i < 4)) (keeping (\<lambda>i. i + 1))
     (ignoring (\<lambda>i. [1, 2, 2, 5, 3::int] ! nat i \<le> [1, 2, 2, 5, 3] ! nat (i + 1)))
     = Some (Value 3)"
proof -
  have s: "steps 4 (\<lambda>i. i + 1) (0::int) = [0, 1, 2, 3]"
    by (simp add: eval_nat_numeral)
  have i: "iterates 4 (0::int) (\<lambda>i. i < 4) (\<lambda>i. i + 1)"
    by (simp add: iterates_def s) (simp add: eval_nat_numeral)
  show ?thesis
    using quantifiers_reduce [OF i, of "\<lambda>i. [1, 2, 2, 5, 3::int] ! nat i \<le> [1, 2, 2, 5, 3] ! nat (i + 1)"]
    by (simp add: s INT_MAX_def eval_nat_numeral)
qed

text \<open>
  Claim C5 as stated fails on the code in two ways. A condition that uses a variable
  \<^verbatim>\<open>result\<close> of the client is evaluated with the variable of the macro: with
  \<^verbatim>\<open>int a[] = {1, 2, 3}\<close>, \<^verbatim>\<open>exists(int i = 0, i < 3, i++, a[i] == result)\<close>
  returns false for a client's \<^verbatim>\<open>result\<close> of 2 although \<^verbatim>\<open>a[1] == 2\<close>, and
  \<^verbatim>\<open>countif(int i = 0, i < 3, i++, a[i] > result)\<close> returns 3 for a client's
  \<^verbatim>\<open>result\<close> of 1 although only two elements are greater than 1. And a count above
  \<^verbatim>\<open>INT_MAX\<close> is not returned:
  \<^verbatim>\<open>countif(long i = 0, i < 2147483648, i++, true)\<close> overflows the counter.
\<close>

theorem quantifiers_capture_and_overflow:
  "exists Macro_variable (\<lambda>r. 0::int) (\<lambda>i r. i < 3) (\<lambda>i r. (i + 1, r))
       (\<lambda>i r. [1, 2, 3] ! nat i = r) = Some False
   \<and> list_ex (\<lambda>i. [1, 2, 3] ! nat i = (2::int)) (steps 3 (\<lambda>i. i + 1) (0::int))
   \<and> countif Macro_variable (\<lambda>r. 0::int) (\<lambda>i r. i < 3) (\<lambda>i r. (i + 1, r))
       (\<lambda>i r. r < [1, 2, 3] ! nat i) = Some (Value 3)
   \<and> length (filter (\<lambda>i. (1::int) < [1, 2, 3] ! nat i) (steps 3 (\<lambda>i. i + 1) (0::int))) = 2
   \<and> countif Macro_variable (\<lambda>r. 0::int) (ignoring (\<lambda>i. i < 2147483648)) (keeping (\<lambda>i. i + 1))
       (ignoring (\<lambda>i. True)) = Some Signed_overflow"
proof (intro conjI)
  show "exists Macro_variable (\<lambda>r. 0::int) (\<lambda>i r. i < 3) (\<lambda>i r. (i + 1, r))
       (\<lambda>i r. [1, 2, 3] ! nat i = r) = Some False"
    by (simp add: exists_def exists_loop.simps seen_def next_scope_def assigned_def)
  show "list_ex (\<lambda>i. [1, 2, 3] ! nat i = (2::int)) (steps 3 (\<lambda>i. i + 1) (0::int))"
    by (simp add: eval_nat_numeral)
  show "countif Macro_variable (\<lambda>r. 0::int) (\<lambda>i r. i < 3) (\<lambda>i r. (i + 1, r))
       (\<lambda>i r. r < [1, 2, 3] ! nat i) = Some (Value 3)"
    by (simp add: countif_def countif_loop.simps seen_def next_scope_def increment_def
        INT_MAX_def)
  show "length (filter (\<lambda>i. (1::int) < [1, 2, 3] ! nat i) (steps 3 (\<lambda>i. i + 1) (0::int))) = 2"
    by (simp add: eval_nat_numeral)
  have i: "iterates 2147483648 (0::int) (\<lambda>i. i < 2147483648) (\<lambda>i. i + 1)"
    by (rule counting_iterates) simp
  show "countif Macro_variable (\<lambda>r. 0::int) (ignoring (\<lambda>i. i < 2147483648)) (keeping (\<lambda>i. i + 1))
       (ignoring (\<lambda>i. True)) = Some Signed_overflow"
    using countif_loop_overflow [OF i, of 0 "\<lambda>i. True"]
    by (simp add: countif_def INT_MAX_def length_steps)
qed



section \<open>Properties of the tracked allocator\<close>

lemma site_eta [simp]:
  "\<lparr>file_name = file_name loc, line_no = line_no loc, func_name = func_name loc\<rparr> = (loc::site)"
  by (cases loc) simp

lemma perform_ledger:
  "perform r L = Inr L' \<Longrightarrow>
   (L' p \<noteq> None) = (creates r p \<or> (L p \<noteq> None \<and> \<not> releases r p))"
  by (cases r)
    (auto simp: xmalloc_def xcalloc_def xrealloc_def base_malloc_def base_calloc_def
      base_realloc_def base_free_def split: if_splits)

lemma run_ledger:
  "run reqs L0 = Inr L \<Longrightarrow>
   (L p \<noteq> None) = (live p reqs \<or> (L0 p \<noteq> None \<and> list_all (\<lambda>r. \<not> releases r p) reqs))"
proof (induction reqs arbitrary: L0)
  case Nil
  then show ?case by simp
next
  case (Cons r rs)
  from Cons.prems obtain L1 where p: "perform r L0 = Inr L1" and r: "run rs L1 = Inr L"
    by (auto split: sum.splits)
  show ?case
    using Cons.IH [OF r] perform_ledger [OF p, of p] by auto
qed

lemma live_split:
  "live p reqs = (\<exists>pre r post. reqs = pre @ r # post \<and> creates r p \<and> (\<forall>r' \<in> set post. \<not> releases r' p))"
proof (induction reqs)
  case Nil
  show ?case by simp
next
  case (Cons a reqs)
  show ?case
  proof
    assume "live p (a # reqs)"
    then consider "creates a p" "list_all (\<lambda>r'. \<not> releases r' p) reqs" | "live p reqs"
      by auto
    then show "\<exists>pre r post. a # reqs = pre @ r # post \<and> creates r p \<and> (\<forall>r' \<in> set post. \<not> releases r' p)"
    proof cases
      case 1
      then have "a # reqs = [] @ a # reqs \<and> creates a p \<and> (\<forall>r' \<in> set reqs. \<not> releases r' p)"
        by (simp add: list_all_iff)
      then show ?thesis by blast
    next
      case 2
      with Cons obtain pre r post where
        "reqs = pre @ r # post" "creates r p" "\<forall>r' \<in> set post. \<not> releases r' p"
        by blast
      then have "a # reqs = (a # pre) @ r # post \<and> creates r p \<and> (\<forall>r' \<in> set post. \<not> releases r' p)"
        by simp
      then show ?thesis by blast
    qed
  next
    assume "\<exists>pre r post. a # reqs = pre @ r # post \<and> creates r p \<and> (\<forall>r' \<in> set post. \<not> releases r' p)"
    then obtain pre r post where
      e: "a # reqs = pre @ r # post" and c: "creates r p" and n: "\<forall>r' \<in> set post. \<not> releases r' p"
      by blast
    show "live p (a # reqs)"
    proof (cases pre)
      case Nil
      with e c n show ?thesis by (simp add: list_all_iff)
    next
      case (Cons a' pre')
      with e have "reqs = pre' @ r # post" by simp
      with c n Cons.IH have "live p reqs" by blast
      then show ?thesis by simp
    qed
  qed
qed

text \<open>
  Claim C1. For every size \<open>n\<close>, an allocation that the platform satisfies registers the
  returned address, and releasing that address leaves the ledger without a record for
  it. For a run of requests that starts with the empty ledger and does not fail, the
  ledger has a record at \<open>p\<close> if and only if some request of the run handed out
  the block at \<open>p\<close> and no later request released it.
\<close>

theorem ledger_tracks_live_blocks:
  "(platform_block \<noteq> NULL \<longrightarrow>
      xmalloc loc n platform_block L
        = Inr (platform_block,
            L(platform_block \<mapsto> \<lparr>byte_size = n, origin = loc\<rparr>))
    \<and> base_free platform_block (L(platform_block \<mapsto> \<lparr>byte_size = n, origin = loc\<rparr>)) platform_block
        = None)
   \<and> (run reqs Map.empty = Inr L' \<longrightarrow> (L' p \<noteq> None) = live p reqs)
   \<and> live p reqs
       = (\<exists>pre r post. reqs = pre @ r # post \<and> creates r p \<and> (\<forall>r' \<in> set post. \<not> releases r' p))"
proof (intro conjI impI)
  assume "platform_block \<noteq> NULL"
  then show "xmalloc loc n platform_block L
        = Inr (platform_block, L(platform_block \<mapsto> \<lparr>byte_size = n, origin = loc\<rparr>))"
    by (simp add: xmalloc_def base_malloc_def)
next
  assume "platform_block \<noteq> NULL"
  then show "base_free platform_block (L(platform_block \<mapsto> \<lparr>byte_size = n, origin = loc\<rparr>)) platform_block
        = None"
    by (simp add: base_free_def)
next
  assume "run reqs Map.empty = Inr L'"
  from run_ledger [OF this, of p] show "(L' p \<noteq> None) = live p reqs" by simp
next
  show "live p reqs
       = (\<exists>pre r post. reqs = pre @ r # post \<and> creates r p \<and> (\<forall>r' \<in> set post. \<not> releases r' p))"
    by (rule live_split)
qed


text \<open>Two allocations and the release of the first.\<close>

theorem ledger_tracks_live_blocks_witness:
  "xmalloc example_site 16 4096 Map.empty
     = Inr (4096, [4096 \<mapsto> \<lparr>byte_size = 16, origin = example_site\<rparr>])
   \<and> base_free 4096 [4096 \<mapsto> \<lparr>byte_size = 16, origin = example_site\<rparr>] 4096 = None
   \<and> live 8192 [Malloc example_site 16 4096, Malloc example_site 100 8192, Free 4096]
   \<and> \<not> live 4096 [Malloc example_site 16 4096, Malloc example_site 100 8192, Free 4096]"
proof -
  have n: "(4096::nat) \<noteq> NULL" by (simp add: NULL_def)
  have r: "run [Malloc example_site 16 4096, Malloc example_site 100 8192, Free 4096] Map.empty
      = Inr [8192 \<mapsto> \<lparr>byte_size = 100, origin = example_site\<rparr>]"
    by (simp add: xmalloc_def base_malloc_def base_free_def NULL_def fun_upd_twist)
  note t = ledger_tracks_live_blocks [of 4096 example_site 16 Map.empty
      "[Malloc example_site 16 4096, Malloc example_site 100 8192, Free 4096]"
      "[8192 \<mapsto> \<lparr>byte_size = 100, origin = example_site\<rparr>]"]
  from t [of 8192] t [of 4096] n r show ?thesis
    by simp
qed





section \<open>Properties of container access\<close>

lemma require_passes: "condition \<Longrightarrow> require ms b loc d condition ct st = Continues st"
  by (simp add: require_def)

text \<open>
  Claim C2. With preconditions compiled in, \<^verbatim>\<open>get\<close> and \<^verbatim>\<open>set\<close> on a container of
  length \<open>L\<close> succeed for every index in \<open>[0, L)\<close>: \<^verbatim>\<open>get\<close> returns the element and
  \<^verbatim>\<open>set\<close> the container with the element replaced, and the process goes on unchanged.
  For an index below 0 or at least \<open>L\<close> they return no data: the precondition fails,
  its diagnostic is written and the process is ended by \<^verbatim>\<open>base_exit(EXIT_FAILURE)\<close>.
\<close>

theorem container_access_checked:
  assumes "\<not> NO_REQUIRE b"
  shows "(0 \<le> index \<and> index < int (length container) \<longrightarrow>
            get client_scope b loc d ct container index st = Returned (container ! nat index) st
          \<and> set_elem client_scope b loc d ct container index v st
              = Returned (container[nat index := v]) st
          \<and> (container[nat index := v]) ! nat index = v)
       \<and> (index < 0 \<or> int (length container) \<le> index \<longrightarrow>
            get client_scope b loc d ct container index st
              = Stopped (Calls ''base_exit'' EXIT_FAILURE
                  (st\<lparr>stderr := stderr st @
                     plain_diagnostic loc (func_name loc @ '''s precondition'') d ct @ [newline]\<rparr>))
          \<and> set_elem client_scope b loc d ct container index v st
              = Stopped (Calls ''base_exit'' EXIT_FAILURE
                  (st\<lparr>stderr := stderr st @
                     plain_diagnostic loc (func_name loc @ '''s precondition'') d ct @ [newline]\<rparr>)))"
proof (intro conjI impI)
  assume r: "0 \<le> index \<and> index < int (length container)"
  then have i: "in_range container index" by (simp add: in_range_def)
  show "get client_scope b loc d ct container index st = Returned (container ! nat index) st"
    by (simp add: get_def i require_passes)
  show "set_elem client_scope b loc d ct container index v st
      = Returned (container[nat index := v]) st"
    by (simp add: set_elem_def i require_passes)
  from r have "nat index < length container"
    by linarith
  then show "(container[nat index := v]) ! nat index = v"
    by simp
next
  assume "index < 0 \<or> int (length container) \<le> index"
  then have i: "\<not> in_range container index" by (auto simp: in_range_def)
  note f = require_fails [OF assms i, of client_scope loc d ct st]
  show "get client_scope b loc d ct container index st
      = Stopped (Calls ''base_exit'' EXIT_FAILURE
          (st\<lparr>stderr := stderr st @
             plain_diagnostic loc (func_name loc @ '''s precondition'') d ct @ [newline]\<rparr>))"
    by (simp add: get_def f expand_exit)
  show "set_elem client_scope b loc d ct container index v st
      = Stopped (Calls ''base_exit'' EXIT_FAILURE
          (st\<lparr>stderr := stderr st @
             plain_diagnostic loc (func_name loc @ '''s precondition'') d ct @ [newline]\<rparr>))"
    by (simp add: set_elem_def f expand_exit)
qed

text \<open>
  An array of five elements: index 4 is read and written, index 5 and index -1 end the
  process.
\<close>

theorem container_access_checked_witness:
  \<open>get client_scope checks_enabled example_site ''index in range'' ''0 <= index && index < length''
       [10, 20, 30, 40, 50 :: int] 4 \<lparr>stderr = []\<rparr>
     = Returned 50 \<lparr>stderr = []\<rparr>
   \<and> set_elem client_scope checks_enabled example_site ''index in range''
       ''0 <= index && index < length'' [10, 20, 30, 40, 50 :: int] 4 42 \<lparr>stderr = []\<rparr>
     = Returned [10, 20, 30, 40, 42] \<lparr>stderr = []\<rparr>
   \<and> get client_scope checks_enabled example_site ''index in range'' ''0 <= index && index < length''
       [10, 20, 30, 40, 50 :: int] 5 \<lparr>stderr = []\<rparr>
     = Stopped (Calls ''base_exit'' 1
         \<lparr>stderr = ''myfile.c, line 18: myfunction's precondition "index in range" (0 <= index && index < length) violated''
            @ [CHR 0x0A]\<rparr>)
   \<and> set_elem client_scope checks_enabled example_site ''index in range''
       ''0 <= index && index < length'' [10, 20, 30, 40, 50 :: int] (- 1) 42 \<lparr>stderr = []\<rparr>
     = Stopped (Calls ''base_exit'' 1
         \<lparr>stderr = ''myfile.c, line 18: myfunction's precondition "index in range" (0 <= index && index < length) violated''
            @ [CHR 0x0A]\<rparr>)\<close>
proof -
  have e: "\<not> NO_REQUIRE checks_enabled"
    by (simp add: checks_enabled_def)
  note t = container_access_checked [OF e, of _ "[10, 20, 30, 40, 50 :: int]" example_site
      "''index in range''" "''0 <= index && index < length''" "\<lparr>stderr = []\<rparr>" 42]
  from t [of 4] t [of 5] t [of "- 1"] show ?thesis
    by (simp add: eval_simps)
qed

end
